theory Spec2Isabelle
  imports Complex_Main
begin

section \<open>The referral core of AMB\_KCR.py\<close>

text \<open>
  The core classes of \<^verbatim>\<open>src/AMB_KCR.py\<close> (Hospital, Patient, Ambulance, ReferralSystem,
  AmbulanceTracker) are embedded with an explicit object store. Python objects are shared
  by reference: a patient is reachable from \<^verbatim>\<open>Hospital.referrals_received\<close>, from
  \<^verbatim>\<open>Ambulance.current_patient\<close> and from a referral dict at once, and a method mutates
  the one object behind all of them. So every object lives in a heap (one per class, from
  references to field records), the fields that hold objects hold references, and each
  method takes the world and returns the world it leaves behind.

  Conventions:
  \<^item> a reference is a natural number; \<^verbatim>\<open>x in list\<close> and \<^verbatim>\<open>list.remove(x)\<close> on objects
    without \<^verbatim>\<open>__eq__\<close> compare identities, that is references;
  \<^item> instances of the classes are always truthy (no \<^verbatim>\<open>__bool__\<close>, no \<^verbatim>\<open>__len__\<close>), and
    a referral dict is never empty, so \<^verbatim>\<open>x or y\<close>, \<^verbatim>\<open>if not x\<close> and \<^verbatim>\<open>if x\<close> test for
    \<^verbatim>\<open>None\<close> only;
  \<^item> \<^verbatim>\<open>datetime.datetime.now()\<close> reads the wall clock: each reading is an argument of
    the operation that takes it, a real number of minutes;
  \<^item> coordinates, distances and speeds are Python floats, idealised as real numbers
    (rounding is not modelled); \<^verbatim>\<open>geodesic(...).km\<close> of geopy and the draws of
    \<^verbatim>\<open>random.uniform\<close> are arguments.
\<close>

subsection \<open>Data model\<close>

type_synonym coord = "real \<times> real"
type_synonym time = real

type_synonym hosp_ref = nat
type_synonym pat_ref = nat
type_synonym amb_ref = nat

datatype py_error = ZeroDivisionError

record hospital =
  h_name :: string
  h_location :: coord
  capacity :: int
  available_beds :: int
  hospital_type :: string
  referrals_received :: "pat_ref list"

record patient =
  p_name :: string
  condition :: string
  severity :: int
  vital_signs :: "(string \<times> string) list"
  p_status :: string
  transfer_completion_time :: "time option"

record ambulance =
  a_id :: string
  a_location :: coord
  a_status :: string
  current_patient :: "pat_ref option"
  destination :: "hosp_ref option"
  route :: "coord list"
  eta :: "time option"

text \<open>The referral dict built by \<^verbatim>\<open>create_referral\<close>, one field per key.\<close>

record referral =
  r_id :: int
  r_patient :: pat_ref
  r_from_hospital :: hosp_ref
  r_to_hospital :: hosp_ref
  r_ambulance :: amb_ref
  r_timestamp :: time
  r_status :: string

text \<open>A row of the \<^verbatim>\<open>referral_history\<close> data frame, one field per column.\<close>

record history_row =
  col_Patient :: string
  col_From_Hospital :: string
  col_To_Hospital :: string
  col_Ambulance :: string
  col_Status :: string
  col_Request_Time :: time
  col_Completion_Time :: time

text \<open>
  The world: the three heaps, and the four attributes of the one \<^verbatim>\<open>ReferralSystem\<close>
  (\<^verbatim>\<open>hospitals\<close>, \<^verbatim>\<open>ambulances\<close>, \<^verbatim>\<open>referral_requests\<close>, \<^verbatim>\<open>referral_history\<close>).
  The referral dicts are created by \<^verbatim>\<open>create_referral\<close> only and appended once, so no two
  entries of the ledger are the same dict: the ledger holds them by value.
\<close>

record world =
  hospital_heap :: "hosp_ref \<Rightarrow> hospital"
  patient_heap :: "pat_ref \<Rightarrow> patient"
  ambulance_heap :: "amb_ref \<Rightarrow> ambulance"
  hospitals :: "hosp_ref list"
  ambulances :: "amb_ref list"
  referral_requests :: "referral list"
  referral_history :: "history_row list"

subsection \<open>Constructors\<close>

definition Hospital_init :: "string \<Rightarrow> coord \<Rightarrow> int \<Rightarrow> string \<Rightarrow> hospital" where
  "Hospital_init name location cap htype =
     \<lparr>h_name = name, h_location = location, capacity = cap, available_beds = cap,
      hospital_type = htype, referrals_received = []\<rparr>"

definition Patient_init ::
  "string \<Rightarrow> string \<Rightarrow> int \<Rightarrow> (string \<times> string) list option \<Rightarrow> patient" where
  "Patient_init name cond sev vs =
     \<lparr>p_name = name, condition = cond, severity = sev,
      vital_signs = (case vs of None \<Rightarrow> [] | Some d \<Rightarrow> d),
      p_status = ''waiting'', transfer_completion_time = None\<rparr>"

definition Ambulance_init :: "string \<Rightarrow> coord \<Rightarrow> ambulance" where
  "Ambulance_init amb_id location =
     \<lparr>a_id = amb_id, a_location = location, a_status = ''available'',
      current_patient = None, destination = None, route = [], eta = None\<rparr>"

text \<open>\<^verbatim>\<open>ReferralSystem()\<close> over a given object store: four empty collections.\<close>

definition ReferralSystem_init ::
  "(hosp_ref \<Rightarrow> hospital) \<Rightarrow> (pat_ref \<Rightarrow> patient) \<Rightarrow> (amb_ref \<Rightarrow> ambulance) \<Rightarrow> world" where
  "ReferralSystem_init hh ph ah =
     \<lparr>hospital_heap = hh, patient_heap = ph, ambulance_heap = ah,
      hospitals = [], ambulances = [], referral_requests = [], referral_history = []\<rparr>"

subsection \<open>Hospital\<close>

definition admit_patient :: "world \<Rightarrow> hosp_ref \<Rightarrow> pat_ref \<Rightarrow> bool \<times> world" where
  "admit_patient w h p =
     (let hosp = hospital_heap w h in
      if available_beds hosp > 0 then
        (True,
         w\<lparr>hospital_heap := (hospital_heap w)
              (h := hosp\<lparr>available_beds := available_beds hosp - 1,
                        referrals_received := referrals_received hosp @ [p]\<rparr>),
           patient_heap := (patient_heap w)
              (p := (patient_heap w p)\<lparr>p_status := ''admitted''\<rparr>)\<rparr>)
      else (False, w))"

definition discharge_patient :: "world \<Rightarrow> hosp_ref \<Rightarrow> pat_ref \<Rightarrow> bool \<times> world" where
  "discharge_patient w h p =
     (let hosp = hospital_heap w h in
      if p \<in> set (referrals_received hosp) then
        (True,
         w\<lparr>hospital_heap := (hospital_heap w)
              (h := hosp\<lparr>referrals_received := remove1 p (referrals_received hosp),
                        available_beds := available_beds hosp + 1\<rparr>),
           patient_heap := (patient_heap w)
              (p := (patient_heap w p)\<lparr>p_status := ''discharged''\<rparr>)\<rparr>)
      else (False, w))"

subsection \<open>Ambulance\<close>

definition dispatch :: "world \<Rightarrow> amb_ref \<Rightarrow> pat_ref \<Rightarrow> hosp_ref \<Rightarrow> world" where
  "dispatch w a p dest =
     w\<lparr>ambulance_heap := (ambulance_heap w)
          (a := (ambulance_heap w a)\<lparr>a_status := ''dispatched'',
                                     current_patient := Some p,
                                     destination := Some dest\<rparr>)\<rparr>"

text \<open>
  \<^verbatim>\<open>complete_transfer\<close> stamps the patient the ambulance holds at that moment, if any, with
  the clock reading \<open>now\<close>; it assigns \<^verbatim>\<open>status\<close>, \<^verbatim>\<open>current_patient\<close> and
  \<^verbatim>\<open>destination\<close> and no other attribute.
\<close>

definition complete_transfer :: "world \<Rightarrow> amb_ref \<Rightarrow> time \<Rightarrow> world" where
  "complete_transfer w a now =
     (let amb = ambulance_heap w a;
          ph = (case current_patient amb of
                  None \<Rightarrow> patient_heap w
                | Some p \<Rightarrow> (patient_heap w)
                     (p := (patient_heap w p)\<lparr>transfer_completion_time := Some now\<rparr>))
      in w\<lparr>ambulance_heap := (ambulance_heap w)
              (a := amb\<lparr>a_status := ''available'',
                       current_patient := None,
                       destination := None\<rparr>),
           patient_heap := ph\<rparr>)"

subsection \<open>ReferralSystem\<close>

definition add_hospital :: "world \<Rightarrow> hosp_ref \<Rightarrow> world" where
  "add_hospital w h = w\<lparr>hospitals := hospitals w @ [h]\<rparr>"

definition add_ambulance :: "world \<Rightarrow> amb_ref \<Rightarrow> world" where
  "add_ambulance w a = w\<lparr>ambulances := ambulances w @ [a]\<rparr>"

definition find_available_ambulance :: "world \<Rightarrow> amb_ref option" where
  "find_available_ambulance w =
     find (\<lambda>a. a_status (ambulance_heap w a) = ''available'') (ambulances w)"

definition create_referral ::
  "world \<Rightarrow> pat_ref \<Rightarrow> hosp_ref \<Rightarrow> hosp_ref \<Rightarrow> amb_ref option \<Rightarrow> time
     \<Rightarrow> referral option \<times> world" where
  "create_referral w p from_hospital to_hospital amb_arg now =
     (case (case amb_arg of Some a \<Rightarrow> Some a | None \<Rightarrow> find_available_ambulance w) of
        None \<Rightarrow> (None, w)
      | Some amb \<Rightarrow>
          (let rf = \<lparr>r_id = int (length (referral_requests w)) + 1,
                    r_patient = p,
                    r_from_hospital = from_hospital,
                    r_to_hospital = to_hospital,
                    r_ambulance = amb,
                    r_timestamp = now,
                    r_status = ''in_transit''\<rparr>;
               w1 = dispatch w amb p to_hospital
           in (Some rf, w1\<lparr>referral_requests := referral_requests w1 @ [rf]\<rparr>)))"

text \<open>
  \<^verbatim>\<open>referral["status"] = "completed"\<close> mutates the dict that \<^verbatim>\<open>next(...)\<close> found, the
  first of the ledger with the id: \<open>update_first\<close> rewrites that entry in place.
\<close>

fun update_first :: "('a \<Rightarrow> bool) \<Rightarrow> ('a \<Rightarrow> 'a) \<Rightarrow> 'a list \<Rightarrow> 'a list" where
  "update_first P f [] = []"
| "update_first P f (x # xs) = (if P x then f x # xs else x # update_first P f xs)"

text \<open>
  \<open>now1\<close> is the reading taken inside \<^verbatim>\<open>complete_transfer\<close>, \<open>now2\<close> the one taken for
  \<^verbatim>\<open>completion_time\<close>. The names of the row are read through the references after the
  ambulance has been released.
\<close>

definition complete_referral ::
  "world \<Rightarrow> int \<Rightarrow> time \<Rightarrow> time \<Rightarrow> referral option \<times> world" where
  "complete_referral w referral_id now1 now2 =
     (case find (\<lambda>r. r_id r = referral_id) (referral_requests w) of
        None \<Rightarrow> (None, w)
      | Some rf \<Rightarrow>
          (let w1 = complete_transfer w (r_ambulance rf) now1;
               rf' = rf\<lparr>r_status := ''completed''\<rparr>;
               w2 = w1\<lparr>referral_requests :=
                         update_first (\<lambda>r. r_id r = referral_id)
                           (\<lambda>r. r\<lparr>r_status := ''completed''\<rparr>) (referral_requests w1)\<rparr>;
               new_entry =
                 \<lparr>col_Patient = p_name (patient_heap w2 (r_patient rf')),
                  col_From_Hospital = h_name (hospital_heap w2 (r_from_hospital rf')),
                  col_To_Hospital = h_name (hospital_heap w2 (r_to_hospital rf')),
                  col_Ambulance = a_id (ambulance_heap w2 (r_ambulance rf')),
                  col_Status = r_status rf',
                  col_Request_Time = r_timestamp rf',
                  col_Completion_Time = now2\<rparr>
           in (Some rf', w2\<lparr>referral_history := referral_history w2 @ [new_entry]\<rparr>)))"

subsection \<open>AmbulanceTracker\<close>

text \<open>
  \<open>jitter i\<close> is the pair of \<^verbatim>\<open>random.uniform(-0.0005, 0.0005)\<close> draws of iteration \<open>i\<close>,
  latitude first. \<^verbatim>\<open>num_points + 1\<close> is a divisor: \<^verbatim>\<open>num_points = -1\<close> raises.
\<close>

definition generate_route ::
  "coord \<Rightarrow> coord \<Rightarrow> int \<Rightarrow> (int \<Rightarrow> real \<times> real) \<Rightarrow> py_error + coord list" where
  "generate_route start endp num_points jitter =
     (if num_points + 1 = 0 then Inl ZeroDivisionError
      else
        (let lat_diff = (fst endp - fst start) / of_int (num_points + 1);
             lon_diff = (snd endp - snd start) / of_int (num_points + 1)
         in Inr (map (\<lambda>i. (fst start + lat_diff * of_int i + fst (jitter i),
                           snd start + lon_diff * of_int i + snd (jitter i)))
                     [1..num_points])))"

text \<open>
  \<open>distance_km\<close> is what \<^verbatim>\<open>calculate_distance(ambulance.location, dest_loc)\<close> returned.
  The division by \<^verbatim>\<open>speed_kmh\<close> raises before any attribute is assigned.
\<close>

definition simulate_movement ::
  "world \<Rightarrow> amb_ref \<Rightarrow> coord \<Rightarrow> real \<Rightarrow> time \<Rightarrow> real \<Rightarrow> (int \<Rightarrow> real \<times> real)
     \<Rightarrow> py_error + ((real \<times> time) \<times> world)" where
  "simulate_movement w a dest_loc speed_kmh now distance_km jitter =
     (if speed_kmh = 0 then Inl ZeroDivisionError
      else
        (let minutes = (distance_km / speed_kmh) * 60;
             eta' = now + minutes
         in case generate_route (a_location (ambulance_heap w a)) dest_loc 6 jitter of
              Inl e \<Rightarrow> Inl e
            | Inr rt \<Rightarrow>
                Inr ((distance_km, eta'),
                     w\<lparr>ambulance_heap := (ambulance_heap w)
                          (a := (ambulance_heap w a)\<lparr>eta := Some eta',
                                                     route := rt,
                                                     a_status := ''en_route''\<rparr>)\<rparr>)))"

section \<open>Invariants, command sequences and a small session\<close>

text \<open>The ambulance invariant of the data model: a patient is held iff the status is not "available".\<close>

definition amb_inv :: "ambulance \<Rightarrow> bool" where
  "amb_inv a = ((current_patient a \<noteq> None) = (a_status a \<noteq> ''available''))"

text \<open>The hospital invariants: the bed count stays in range and accounts for every stored patient.\<close>

definition hosp_inv :: "hospital \<Rightarrow> bool" where
  "hosp_inv h =
     (0 \<le> available_beds h \<and> available_beds h \<le> capacity h \<and>
      available_beds h + int (length (referrals_received h)) = capacity h)"

text \<open>
  The calls a session makes on the ledger and the tracker, and their effect on the world.
  A raised exception ends the call and leaves the world as it was (the division in
  \<^verbatim>\<open>simulate_movement\<close> comes before its first assignment).
\<close>

datatype command =
    Create_referral pat_ref hosp_ref hosp_ref "amb_ref option" time
  | Complete_referral int time time
  | Simulate_movement amb_ref coord real time real "int \<Rightarrow> real \<times> real"

fun exec :: "world \<Rightarrow> command \<Rightarrow> world" where
  "exec w (Create_referral p f t a now) = snd (create_referral w p f t a now)"
| "exec w (Complete_referral i now1 now2) = snd (complete_referral w i now1 now2)"
| "exec w (Simulate_movement a dest speed now km jitter) =
     (case simulate_movement w a dest speed now km jitter of
        Inl e \<Rightarrow> w
      | Inr (res, w') \<Rightarrow> w')"

fun run :: "world \<Rightarrow> command list \<Rightarrow> world" where
  "run w [] = w"
| "run w (c # cs) = run (exec w c) cs"

text \<open>
  A sequence is \<open>tracked_in_use\<close> when each \<^verbatim>\<open>simulate_movement\<close> of it is made on an
  ambulance whose status, at that moment, is not "available".
\<close>

fun in_use :: "world \<Rightarrow> command \<Rightarrow> bool" where
  "in_use w (Simulate_movement a dest speed now km jitter) =
     (a_status (ambulance_heap w a) \<noteq> ''available'')"
| "in_use w (Create_referral p f t a now) = True"
| "in_use w (Complete_referral i now1 now2) = True"

fun tracked_in_use :: "world \<Rightarrow> command list \<Rightarrow> bool" where
  "tracked_in_use w [] = True"
| "tracked_in_use w (c # cs) = (in_use w c \<and> tracked_in_use (exec w c) cs)"

text \<open>
  A sequence is \<open>regular_run\<close> when it never supplies an ambulance to
  \<^verbatim>\<open>create_referral\<close> and never completes a referral that is already completed.
\<close>

fun regular :: "world \<Rightarrow> command \<Rightarrow> bool" where
  "regular w (Create_referral p f t a now) = (a = None)"
| "regular w (Complete_referral i now1 now2) =
     (case find (\<lambda>r. r_id r = i) (referral_requests w) of
        None \<Rightarrow> True
      | Some rf \<Rightarrow> r_status rf = ''in_transit'')"
| "regular w (Simulate_movement a dest speed now km jitter) = True"

fun regular_run :: "world \<Rightarrow> command list \<Rightarrow> bool" where
  "regular_run w [] = True"
| "regular_run w (c # cs) = (regular w c \<and> regular_run (exec w c) cs)"

text \<open>
  The state of the ledger in a regular session: the ids are distinct and bounded by the
  size of the ledger, an ambulance that holds a patient is not available, and every
  referral in transit has its ambulance to itself, holding the referral's patient.
\<close>

definition ids_fresh :: "world \<Rightarrow> bool" where
  "ids_fresh w =
     (distinct (map r_id (referral_requests w)) \<and>
      (\<forall>r \<in> set (referral_requests w). r_id r \<le> int (length (referral_requests w))))"

definition carrying_busy :: "world \<Rightarrow> bool" where
  "carrying_busy w =
     (\<forall>b. current_patient (ambulance_heap w b) \<noteq> None \<longrightarrow>
          a_status (ambulance_heap w b) \<noteq> ''available'')"

definition in_transit_bound :: "world \<Rightarrow> bool" where
  "in_transit_bound w =
     (\<forall>r \<in> set (referral_requests w). r_status r = ''in_transit'' \<longrightarrow>
        current_patient (ambulance_heap w (r_ambulance r)) = Some (r_patient r) \<and>
        (\<forall>r' \<in> set (referral_requests w).
           r_status r' = ''in_transit'' \<and> r_ambulance r' = r_ambulance r \<longrightarrow> r' = r))"

definition ledger_inv :: "world \<Rightarrow> bool" where
  "ledger_inv w = (ids_fresh w \<and> carrying_busy w \<and> in_transit_bound w)"

text \<open>
  The scenario of the specification: Hospital A (capacity 5) and Hospital B, two
  patients waiting, ambulances AMB1 and AMB2 registered in that order.
\<close>

definition demo_hospitals :: "hosp_ref \<Rightarrow> hospital" where
  "demo_hospitals =
     (\<lambda>_. Hospital_init ''Hospital B'' (1, 1) 3 ''general'')
       (0 := Hospital_init ''Hospital A'' (0, 0) 5 ''general'')"

definition demo_patients :: "pat_ref \<Rightarrow> patient" where
  "demo_patients =
     (\<lambda>_. Patient_init ''Mary Achieng'' ''maternity'' 3 None)
       (0 := Patient_init ''John Otieno'' ''trauma'' 4 (Some [(''hr'', ''110'')]))"

definition demo_ambulances :: "amb_ref \<Rightarrow> ambulance" where
  "demo_ambulances =
     (\<lambda>_. Ambulance_init ''AMB2'' (1, 1))(0 := Ambulance_init ''AMB1'' (0, 0))"

definition demo_world :: world where
  "demo_world =
     add_ambulance
       (add_ambulance
          (add_hospital
             (add_hospital
                (ReferralSystem_init demo_hospitals demo_patients demo_ambulances) 0) 1) 0) 1"

definition no_jitter :: "int \<Rightarrow> real \<times> real" where
  "no_jitter = (\<lambda>_. (0, 0))"

text \<open>Draws that sit on the two ends of the jitter range at the second point.\<close>

definition demo_jitter :: "int \<Rightarrow> real \<times> real" where
  "demo_jitter = (\<lambda>i. if i = 2 then (5 / 10000, - (5 / 10000)) else (0, 0))"

text \<open>The session after one referral, and after both ambulances have been sent out.\<close>

definition demo_dispatched :: world where
  "demo_dispatched = run demo_world [Create_referral 0 0 1 None 0]"

definition demo_all_busy :: world where
  "demo_all_busy =
     run demo_world [Create_referral 0 0 1 None 0, Create_referral 1 1 0 None 2]"

text \<open>The session after John Otieno has been admitted to Hospital A.\<close>

definition demo_admitted :: world where
  "demo_admitted = snd (admit_patient demo_world 0 0)"

text \<open>
  The session with AMB1 sent out and tracked (157 km at 60 km/h, clock reading 1), and the
  session in which AMB1 has completed a first referral and been sent out on a second one.
\<close>

definition demo_en_route :: world where
  "demo_en_route =
     run demo_world [Create_referral 0 0 1 None 0, Simulate_movement 0 (1, 1) 60 1 157 no_jitter]"

definition demo_reused :: world where
  "demo_reused =
     run demo_world
       [Create_referral 0 0 1 None 0, Complete_referral 1 10 10, Create_referral 1 1 0 None 20]"

section \<open>Evaluation rules\<close>

lemmas demo_defs = demo_world_def demo_hospitals_def demo_patients_def demo_ambulances_def
  add_ambulance_def add_hospital_def ReferralSystem_init_def Hospital_init_def Patient_init_def Ambulance_init_def
  demo_dispatched_def demo_all_busy_def demo_admitted_def demo_en_route_def demo_reused_def

lemmas op_defs = create_referral_def find_available_ambulance_def dispatch_def Let_def
  complete_referral_def complete_transfer_def admit_patient_def discharge_patient_def

lemmas tracker_defs = simulate_movement_def generate_route_def no_jitter_def

section \<open>Basic facts about the operations\<close>

lemma find_update_first:
  assumes "\<And>x. P x \<Longrightarrow> P (f x)"
  shows "find P (update_first P f xs) = map_option f (find P xs)"
  using assms by (induction xs) auto

lemma length_update_first: "length (update_first P f xs) = length xs"
  by (induction xs) auto

lemma update_first_none: "find P xs = None \<Longrightarrow> update_first P f xs = xs"
  by (induction xs) (auto split: if_splits)

lemma complete_transfer_ambulance:
  "ambulance_heap (complete_transfer w a now) =
     (ambulance_heap w)
       (a := (ambulance_heap w a)\<lparr>a_status := ''available'', current_patient := None,
                                  destination := None\<rparr>)"
  by (simp add: complete_transfer_def Let_def)

lemma complete_transfer_patient:
  "patient_heap (complete_transfer w a now) =
     (case current_patient (ambulance_heap w a) of
        None \<Rightarrow> patient_heap w
      | Some q \<Rightarrow> (patient_heap w)
          (q := (patient_heap w q)\<lparr>transfer_completion_time := Some now\<rparr>))"
  by (simp add: complete_transfer_def Let_def)

lemma complete_transfer_p_name:
  "p_name (patient_heap (complete_transfer w a now) q) = p_name (patient_heap w q)"
  by (simp add: complete_transfer_patient split: option.splits)

lemma complete_transfer_rest:
  "hospital_heap (complete_transfer w a now) = hospital_heap w"
  "hospitals (complete_transfer w a now) = hospitals w"
  "ambulances (complete_transfer w a now) = ambulances w"
  "referral_requests (complete_transfer w a now) = referral_requests w"
  "referral_history (complete_transfer w a now) = referral_history w"
  by (simp_all add: complete_transfer_def Let_def)

lemma complete_transfer_a_id:
  "a_id (ambulance_heap (complete_transfer w a now) b) = a_id (ambulance_heap w b)"
  by (simp add: complete_transfer_ambulance)

lemma complete_referral_found:
  assumes "find (\<lambda>r. r_id r = referral_id) (referral_requests w) = Some rf"
  shows "complete_referral w referral_id now1 now2 =
     (Some (rf\<lparr>r_status := ''completed''\<rparr>),
      (complete_transfer w (r_ambulance rf) now1)
        \<lparr>referral_requests :=
           update_first (\<lambda>r. r_id r = referral_id) (\<lambda>r. r\<lparr>r_status := ''completed''\<rparr>)
             (referral_requests w),
         referral_history := referral_history w @
           [\<lparr>col_Patient = p_name (patient_heap w (r_patient rf)),
             col_From_Hospital = h_name (hospital_heap w (r_from_hospital rf)),
             col_To_Hospital = h_name (hospital_heap w (r_to_hospital rf)),
             col_Ambulance = a_id (ambulance_heap w (r_ambulance rf)),
             col_Status = ''completed'',
             col_Request_Time = r_timestamp rf,
             col_Completion_Time = now2\<rparr>]\<rparr>)"
  using assms
  by (simp add: complete_referral_def Let_def complete_transfer_rest complete_transfer_p_name
      complete_transfer_a_id)

lemma find_available_ambulance_Some:
  assumes "find_available_ambulance w = Some a"
  shows "a \<in> set (ambulances w) \<and> a_status (ambulance_heap w a) = ''available''"
proof -
  from assms obtain i where "i < length (ambulances w)"
    and "a_status (ambulance_heap w (ambulances w ! i)) = ''available''"
    and "a = ambulances w ! i"
    unfolding find_available_ambulance_def find_Some_iff by blast
  then show ?thesis by simp
qed

lemma find_available_ambulance_None:
  assumes "find_available_ambulance w = None"
  shows "list_all (\<lambda>a. a_status (ambulance_heap w a) \<noteq> ''available'') (ambulances w)"
  using assms
  by (simp add: find_available_ambulance_def find_None_iff list_all_iff)

section \<open>The ledger of a regular session\<close>

lemma map_other_id:
  "i \<notin> g ` set xs \<Longrightarrow> map (\<lambda>x. if g x = i then f x else x) xs = xs"
  by (induction xs) auto

lemma update_first_distinct:
  "distinct (map g xs) \<Longrightarrow>
   update_first (\<lambda>x. g x = i) f xs = map (\<lambda>x. if g x = i then f x else x) xs"
proof (induction xs)
  case Nil
  then show ?case by simp
next
  case (Cons x xs)
  show ?case
  proof (cases "g x = i")
    case True
    with Cons.prems have "i \<notin> g ` set xs" by auto
    then show ?thesis using True by (simp add: map_other_id)
  next
    case False
    with Cons show ?thesis by simp
  qed
qed

lemma find_id_distinct:
  assumes "distinct (map g xs)" and "find (\<lambda>x. g x = i) xs = Some y" and "x \<in> set xs" and "g x = i"
  shows "x = y"
proof -
  from assms(2) have "y \<in> set xs" and "g y = i"
    by (auto simp: find_Some_iff)
  with assms(1,3,4) show ?thesis
    by (metis distinct_map inj_onD)
qed

lemma ledger_inv_create:
  assumes inv: "ledger_inv w"
  shows "ledger_inv (snd (create_referral w p f t None now))"
proof (cases "find_available_ambulance w")
  case None
  then show ?thesis using inv by (simp add: create_referral_def)
next
  case (Some a)
  from find_available_ambulance_Some [OF Some]
  have av: "a_status (ambulance_heap w a) = ''available''" by simp
  with inv have free: "current_patient (ambulance_heap w a) = None"
    by (auto simp: ledger_inv_def carrying_busy_def)
  have other: "r_ambulance r \<noteq> a"
    if "r \<in> set (referral_requests w)" "r_status r = ''in_transit''" for r
    using inv that free by (auto simp: ledger_inv_def in_transit_bound_def)
  let ?rf = "\<lparr>r_id = int (length (referral_requests w)) + 1, r_patient = p,
              r_from_hospital = f, r_to_hospital = t, r_ambulance = a,
              r_timestamp = now, r_status = ''in_transit''\<rparr>"
  let ?w' = "snd (create_referral w p f t None now)"
  have reqs: "referral_requests ?w' = referral_requests w @ [?rf]"
    and heap: "ambulance_heap ?w' = (ambulance_heap w)
          (a := (ambulance_heap w a)\<lparr>a_status := ''dispatched'', current_patient := Some p,
                                     destination := Some t\<rparr>)"
    using Some by (simp_all add: create_referral_def dispatch_def Let_def)
  from inv have dist: "distinct (map r_id (referral_requests w))"
    and le: "\<forall>r \<in> set (referral_requests w). r_id r \<le> int (length (referral_requests w))"
    by (simp_all add: ledger_inv_def ids_fresh_def)
  from inv have bound: "\<forall>r \<in> set (referral_requests w). r_status r = ''in_transit'' \<longrightarrow>
        current_patient (ambulance_heap w (r_ambulance r)) = Some (r_patient r) \<and>
        (\<forall>r' \<in> set (referral_requests w).
           r_status r' = ''in_transit'' \<and> r_ambulance r' = r_ambulance r \<longrightarrow> r' = r)"
    by (simp add: ledger_inv_def in_transit_bound_def)
  have 1: "ids_fresh ?w'"
  proof -
    have "r_id ?rf \<notin> r_id ` set (referral_requests w)"
    proof
      assume "r_id ?rf \<in> r_id ` set (referral_requests w)"
      then obtain r where "r \<in> set (referral_requests w)" and "r_id r = r_id ?rf" by force
      with le show False by force
    qed
    with dist have "distinct (map r_id (referral_requests w @ [?rf]))" by simp
    moreover have "\<forall>r \<in> set (referral_requests w @ [?rf]).
        r_id r \<le> int (length (referral_requests w @ [?rf]))"
      using le by force
    ultimately show ?thesis
      unfolding ids_fresh_def reqs by blast
  qed
  have 2: "carrying_busy ?w'"
    using inv unfolding ledger_inv_def carrying_busy_def heap by simp
  have 3: "in_transit_bound ?w'"
    unfolding in_transit_bound_def
  proof (intro ballI impI)
    fix r
    assume r: "r \<in> set (referral_requests ?w')" and rt: "r_status r = ''in_transit''"
    show "current_patient (ambulance_heap ?w' (r_ambulance r)) = Some (r_patient r) \<and>
        (\<forall>r' \<in> set (referral_requests ?w').
           r_status r' = ''in_transit'' \<and> r_ambulance r' = r_ambulance r \<longrightarrow> r' = r)"
    proof (cases "r = ?rf")
      case True
      have "r' = ?rf" if "r' \<in> set (referral_requests w @ [?rf])"
        "r_status r' = ''in_transit''" "r_ambulance r' = a" for r'
        using that other by auto
      with True show ?thesis
        unfolding reqs heap by simp
    next
      case False
      with r have r0: "r \<in> set (referral_requests w)"
        unfolding reqs by simp
      from other [OF r0 rt] have na: "r_ambulance r \<noteq> a" .
      from bound r0 rt
      have b: "current_patient (ambulance_heap w (r_ambulance r)) = Some (r_patient r)"
        and u: "\<forall>r' \<in> set (referral_requests w).
           r_status r' = ''in_transit'' \<and> r_ambulance r' = r_ambulance r \<longrightarrow> r' = r"
        by blast+
      have "r' = r" if "r' \<in> set (referral_requests w @ [?rf])"
        "r_status r' = ''in_transit''" "r_ambulance r' = r_ambulance r" for r'
      proof (cases "r' = ?rf")
        case True
        with that na show ?thesis by simp
      next
        case False
        with that have "r' \<in> set (referral_requests w)" by simp
        with u that show ?thesis by blast
      qed
      with b na show ?thesis
        unfolding reqs heap by simp
    qed
  qed
  from 1 2 3 show ?thesis by (simp add: ledger_inv_def)
qed

lemma mark_completed_ids:
  "map r_id (map (\<lambda>r. if r_id r = i then r\<lparr>r_status := s\<rparr> else r) xs) = map r_id xs"
  by (induction xs) simp_all

lemma mark_completed_mem:
  assumes "r \<in> set (map (\<lambda>r. if r_id r = i then r\<lparr>r_status := ''completed''\<rparr> else r) xs)"
    and "r_status r = ''in_transit''"
  shows "r \<in> set xs \<and> r_id r \<noteq> i"
proof -
  from assms(1) obtain x where x: "x \<in> set xs"
    and r: "r = (if r_id x = i then x\<lparr>r_status := ''completed''\<rparr> else x)"
    by auto
  show ?thesis
  proof (cases "r_id x = i")
    case True
    with r have "r_status r = ''completed''" by simp
    with assms(2) show ?thesis by simp
  next
    case False
    with r x show ?thesis by simp
  qed
qed

lemma ledger_inv_complete:
  assumes inv: "ledger_inv w" and reg: "regular w (Complete_referral i now1 now2)"
  shows "ledger_inv (snd (complete_referral w i now1 now2))"
proof (cases "find (\<lambda>r. r_id r = i) (referral_requests w)")
  case None
  then show ?thesis using inv by (simp add: complete_referral_def)
next
  case (Some rf)
  with reg have tr: "r_status rf = ''in_transit''" by simp
  from Some have mem: "rf \<in> set (referral_requests w)" and id: "r_id rf = i"
    by (auto simp: find_Some_iff)
  from inv have dist: "distinct (map r_id (referral_requests w))"
    and le: "\<forall>r \<in> set (referral_requests w). r_id r \<le> int (length (referral_requests w))"
    by (simp_all add: ledger_inv_def ids_fresh_def)
  from inv have bound: "\<forall>r \<in> set (referral_requests w). r_status r = ''in_transit'' \<longrightarrow>
        current_patient (ambulance_heap w (r_ambulance r)) = Some (r_patient r) \<and>
        (\<forall>r' \<in> set (referral_requests w).
           r_status r' = ''in_transit'' \<and> r_ambulance r' = r_ambulance r \<longrightarrow> r' = r)"
    by (simp add: ledger_inv_def in_transit_bound_def)
  from inv have busy: "carrying_busy w"
    by (simp add: ledger_inv_def)
  let ?w' = "snd (complete_referral w i now1 now2)"
  let ?a = "r_ambulance rf"
  let ?xs = "map (\<lambda>r. if r_id r = i then r\<lparr>r_status := ''completed''\<rparr> else r)
      (referral_requests w)"
  have reqs: "referral_requests ?w' = ?xs"
    by (simp add: complete_referral_found [OF Some] update_first_distinct [OF dist])
  have heap: "ambulance_heap ?w' = (ambulance_heap w)
         (?a := (ambulance_heap w ?a)\<lparr>a_status := ''available'', current_patient := None,
                                      destination := None\<rparr>)"
    by (simp add: complete_referral_found [OF Some] complete_transfer_ambulance)
  have other: "r_ambulance r \<noteq> ?a"
    if "r \<in> set (referral_requests w)" "r_status r = ''in_transit''" "r_id r \<noteq> i" for r
  proof
    assume "r_ambulance r = ?a"
    with bound mem tr that have "r = rf" by blast
    with id that show False by simp
  qed
  have 1: "ids_fresh ?w'"
  proof -
    have ids: "map r_id ?xs = map r_id (referral_requests w)"
      by (rule mark_completed_ids)
    have "\<forall>r \<in> set ?xs. r_id r \<le> int (length ?xs)"
    proof
      fix r
      assume "r \<in> set ?xs"
      then have "r_id r \<in> set (map r_id ?xs)" by (simp only: set_map image_eqI)
      then have "r_id r \<in> set (map r_id (referral_requests w))" by (simp only: ids)
      then obtain x where "x \<in> set (referral_requests w)" and "r_id x = r_id r" by auto
      with le show "r_id r \<le> int (length ?xs)" by force
    qed
    moreover from dist have "distinct (map r_id ?xs)"
      by (simp only: ids)
    ultimately show ?thesis
      unfolding ids_fresh_def reqs by blast
  qed
  have 2: "carrying_busy ?w'"
    using busy unfolding carrying_busy_def heap by simp
  have 3: "in_transit_bound ?w'"
    unfolding in_transit_bound_def
  proof (intro ballI impI)
    fix r
    assume r: "r \<in> set (referral_requests ?w')" and rt: "r_status r = ''in_transit''"
    from r have "r \<in> set ?xs" by (simp only: reqs)
    from mark_completed_mem [OF this rt]
    have r0: "r \<in> set (referral_requests w)" and ri: "r_id r \<noteq> i" by blast+
    from other [OF r0 rt ri] have na: "r_ambulance r \<noteq> ?a" .
    from bound r0 rt
    have b: "current_patient (ambulance_heap w (r_ambulance r)) = Some (r_patient r)"
      and u: "\<forall>r' \<in> set (referral_requests w).
           r_status r' = ''in_transit'' \<and> r_ambulance r' = r_ambulance r \<longrightarrow> r' = r"
      by blast+
    have "r' = r" if "r' \<in> set (referral_requests ?w')"
      "r_status r' = ''in_transit''" "r_ambulance r' = r_ambulance r" for r'
    proof -
      from that(1) have "r' \<in> set ?xs" by (simp only: reqs)
      from mark_completed_mem [OF this that(2)]
      have "r' \<in> set (referral_requests w)" by blast
      with u that show ?thesis by blast
    qed
    moreover have "current_patient (ambulance_heap ?w' (r_ambulance r)) = Some (r_patient r)"
      using b na unfolding heap by simp
    ultimately
    show "current_patient (ambulance_heap ?w' (r_ambulance r)) = Some (r_patient r) \<and>
        (\<forall>r' \<in> set (referral_requests ?w').
           r_status r' = ''in_transit'' \<and> r_ambulance r' = r_ambulance r \<longrightarrow> r' = r)"
      by blast
  qed
  from 1 2 3 show ?thesis by (simp add: ledger_inv_def)
qed

lemma exec_simulate_movement:
  "referral_requests (exec w (Simulate_movement a dest speed now km jitter)) =
     referral_requests w"
  "current_patient (ambulance_heap (exec w (Simulate_movement a dest speed now km jitter)) b) =
     current_patient (ambulance_heap w b)"
  "a_status (ambulance_heap (exec w (Simulate_movement a dest speed now km jitter)) b) =
     ''available'' \<Longrightarrow> a_status (ambulance_heap w b) = ''available''"
  by (simp_all add: simulate_movement_def generate_route_def Let_def split: if_splits)

lemma ledger_inv_simulate:
  assumes inv: "ledger_inv w"
  shows "ledger_inv (exec w (Simulate_movement a dest speed now km jitter))"
proof -
  let ?w' = "exec w (Simulate_movement a dest speed now km jitter)"
  have 1: "ids_fresh ?w'"
    using inv by (simp add: ledger_inv_def ids_fresh_def exec_simulate_movement(1) del: exec.simps)
  have 2: "carrying_busy ?w'"
    unfolding carrying_busy_def
  proof (intro allI impI)
    fix b
    assume "current_patient (ambulance_heap ?w' b) \<noteq> None"
    then have "current_patient (ambulance_heap w b) \<noteq> None"
      by (simp add: exec_simulate_movement(2) del: exec.simps)
    with inv have "a_status (ambulance_heap w b) \<noteq> ''available''"
      by (simp add: ledger_inv_def carrying_busy_def)
    then show "a_status (ambulance_heap ?w' b) \<noteq> ''available''"
      using exec_simulate_movement(3) by blast
  qed
  have 3: "in_transit_bound ?w'"
    using inv
    by (simp add: ledger_inv_def in_transit_bound_def exec_simulate_movement(1,2) del: exec.simps)
  from 1 2 3 show ?thesis by (simp add: ledger_inv_def del: exec.simps)
qed

lemma ledger_inv_exec:
  assumes "ledger_inv w" and "regular w c"
  shows "ledger_inv (exec w c)"
proof (cases c)
  case (Create_referral p f t a now)
  with assms show ?thesis by (simp add: ledger_inv_create)
next
  case (Complete_referral i now1 now2)
  with assms show ?thesis by (simp add: ledger_inv_complete)
next
  case (Simulate_movement a dest speed now km jitter)
  with assms show ?thesis by (simp only: ledger_inv_simulate)
qed

lemma ledger_inv_run:
  "ledger_inv w \<Longrightarrow> regular_run w cs \<Longrightarrow> ledger_inv (run w cs)"
  by (induction cs arbitrary: w) (simp_all add: ledger_inv_exec)

lemma ledger_inv_init:
  "\<forall>b. current_patient (ah b) = None \<Longrightarrow> ledger_inv (ReferralSystem_init hh ph ah)"
  by (simp add: ledger_inv_def ids_fresh_def carrying_busy_def in_transit_bound_def
      ReferralSystem_init_def)

lemma ledger_inv_add:
  "ledger_inv w \<Longrightarrow> ledger_inv (add_ambulance w a)"
  "ledger_inv w \<Longrightarrow> ledger_inv (add_hospital w h)"
  by (simp_all add: ledger_inv_def ids_fresh_def carrying_busy_def in_transit_bound_def
      add_ambulance_def add_hospital_def)

lemma in_transit_holds_patient:
  assumes "ledger_inv w" and "find (\<lambda>r. r_id r = i) (referral_requests w) = Some rf"
    and "r_status rf = ''in_transit''"
  shows "current_patient (ambulance_heap w (r_ambulance rf)) = Some (r_patient rf)"
proof -
  from assms(2) have "rf \<in> set (referral_requests w)"
    by (auto simp: find_Some_iff)
  with assms(1,3) show ?thesis
    unfolding ledger_inv_def in_transit_bound_def by blast
qed

section \<open>Unknown referral ids\<close>

text \<open>
  C8. For every id that matches no record of the ledger, \<open>complete_referral\<close> returns
  \<open>None\<close> and the world it returns is the world it was given: no history row, no change
  to any ambulance, patient or referral.
\<close>

theorem complete_referral_unknown_id:
  "\<forall>r \<in> set (referral_requests w). r_id r \<noteq> referral_id \<Longrightarrow>
   complete_referral w referral_id now1 now2 = (None, w)"
proof -
  assume "\<forall>r \<in> set (referral_requests w). r_id r \<noteq> referral_id"
  then have "find (\<lambda>r. r_id r = referral_id) (referral_requests w) = None"
    by (simp add: find_None_iff)
  then show ?thesis
    by (simp add: complete_referral_def)
qed

theorem complete_referral_unknown_id_witness:
  "map r_id (referral_requests demo_dispatched) = [1] \<and>
   complete_referral demo_dispatched 7 3 4 = (None, demo_dispatched)"
  using complete_referral_unknown_id [of demo_dispatched 7 3 4]
  by (simp add: demo_defs op_defs)

section \<open>Automatic selection of an ambulance\<close>

text \<open>
  C7. When no ambulance is supplied and no registered ambulance has status "available",
  \<open>create_referral\<close> returns \<open>None\<close> and the world it returns is the world it was
  given: hospitals, patients, ambulances, ledger and history are unchanged.
\<close>

theorem create_referral_none_available:
  "\<forall>a \<in> set (ambulances w). a_status (ambulance_heap w a) \<noteq> ''available'' \<Longrightarrow>
   create_referral w p from_hospital to_hospital None now = (None, w)"
proof -
  assume "\<forall>a \<in> set (ambulances w). a_status (ambulance_heap w a) \<noteq> ''available''"
  then have "find_available_ambulance w = None"
    by (simp add: find_available_ambulance_def find_None_iff)
  then show ?thesis
    by (simp add: create_referral_def)
qed

theorem create_referral_none_available_witness:
  "ambulances demo_all_busy = [0, 1] \<and>
   a_status (ambulance_heap demo_all_busy 0) = ''dispatched'' \<and>
   a_status (ambulance_heap demo_all_busy 1) = ''dispatched'' \<and>
   create_referral demo_all_busy 0 0 1 None 9 = (None, demo_all_busy)"
  using create_referral_none_available [of demo_all_busy 0 0 1 9]
  by (simp add: demo_defs op_defs)

text \<open>
  C4. Without a supplied ambulance, \<open>create_referral\<close> returns \<open>None\<close> when no
  registered ambulance is available; otherwise it takes the ambulance at the least index
  \<open>i\<close> of the registration list whose status is "available" (first fit), sets its status
  to "dispatched", binds the patient and the destination hospital to it, appends the new
  record with status "in\_transit" to the ledger and returns that record.
\<close>

theorem create_referral_first_fit:
  "((\<forall>a \<in> set (ambulances w). a_status (ambulance_heap w a) \<noteq> ''available'') \<longrightarrow>
      create_referral w p from_hospital to_hospital None now = (None, w)) \<and>
   (\<forall>i < length (ambulances w).
      a_status (ambulance_heap w (ambulances w ! i)) = ''available'' \<and>
      (\<forall>j < i. a_status (ambulance_heap w (ambulances w ! j)) \<noteq> ''available'') \<longrightarrow>
      (\<exists>rf w'. create_referral w p from_hospital to_hospital None now = (Some rf, w') \<and>
         r_ambulance rf = ambulances w ! i \<and>
         r_patient rf = p \<and> r_from_hospital rf = from_hospital \<and>
         r_to_hospital rf = to_hospital \<and> r_timestamp rf = now \<and>
         r_id rf = int (length (referral_requests w)) + 1 \<and>
         r_status rf = ''in_transit'' \<and>
         a_status (ambulance_heap w' (ambulances w ! i)) = ''dispatched'' \<and>
         current_patient (ambulance_heap w' (ambulances w ! i)) = Some p \<and>
         destination (ambulance_heap w' (ambulances w ! i)) = Some to_hospital \<and>
         referral_requests w' = referral_requests w @ [rf]))"
proof (intro conjI allI impI)
  assume "\<forall>a \<in> set (ambulances w). a_status (ambulance_heap w a) \<noteq> ''available''"
  then have "find_available_ambulance w = None"
    by (simp add: find_available_ambulance_def find_None_iff)
  then show "create_referral w p from_hospital to_hospital None now = (None, w)"
    by (simp add: create_referral_def)
next
  fix i
  assume i: "i < length (ambulances w)"
    and fit: "a_status (ambulance_heap w (ambulances w ! i)) = ''available'' \<and>
      (\<forall>j < i. a_status (ambulance_heap w (ambulances w ! j)) \<noteq> ''available'')"
  have "find_available_ambulance w = Some (ambulances w ! i)"
    unfolding find_available_ambulance_def find_Some_iff
    using i fit by blast
  then show "\<exists>rf w'. create_referral w p from_hospital to_hospital None now = (Some rf, w') \<and>
         r_ambulance rf = ambulances w ! i \<and>
         r_patient rf = p \<and> r_from_hospital rf = from_hospital \<and>
         r_to_hospital rf = to_hospital \<and> r_timestamp rf = now \<and>
         r_id rf = int (length (referral_requests w)) + 1 \<and>
         r_status rf = ''in_transit'' \<and>
         a_status (ambulance_heap w' (ambulances w ! i)) = ''dispatched'' \<and>
         current_patient (ambulance_heap w' (ambulances w ! i)) = Some p \<and>
         destination (ambulance_heap w' (ambulances w ! i)) = Some to_hospital \<and>
         referral_requests w' = referral_requests w @ [rf]"
    by (simp add: create_referral_def dispatch_def Let_def)
qed

theorem create_referral_first_fit_witness:
  "a_status (ambulance_heap demo_dispatched (ambulances demo_dispatched ! 0)) \<noteq> ''available'' \<and>
   a_status (ambulance_heap demo_dispatched (ambulances demo_dispatched ! 1)) = ''available'' \<and>
   (\<exists>rf w'. create_referral demo_dispatched 1 1 0 None 2 = (Some rf, w') \<and>
      r_ambulance rf = 1 \<and> r_id rf = 2 \<and> r_status rf = ''in_transit'' \<and>
      a_status (ambulance_heap w' 1) = ''dispatched'' \<and>
      current_patient (ambulance_heap w' 1) = Some 1 \<and>
      destination (ambulance_heap w' 1) = Some 0 \<and>
      referral_requests w' = referral_requests demo_dispatched @ [rf]) \<and>
   create_referral demo_all_busy 0 0 1 None 9 = (None, demo_all_busy)"
proof -
  have busy: "\<forall>a \<in> set (ambulances demo_all_busy).
      a_status (ambulance_heap demo_all_busy a) \<noteq> ''available''"
    by (simp add: demo_defs op_defs)
  have len: "1 < length (ambulances demo_dispatched)"
    by (simp add: demo_defs op_defs)
  have fit: "a_status (ambulance_heap demo_dispatched (ambulances demo_dispatched ! 1)) = ''available'' \<and>
      (\<forall>j < 1. a_status (ambulance_heap demo_dispatched (ambulances demo_dispatched ! j)) \<noteq> ''available'')"
    by (simp add: demo_defs op_defs)
  have a1: "ambulances demo_dispatched ! 1 = 1" "ambulances demo_dispatched ! 0 = 0"
    "length (referral_requests demo_dispatched) = 1"
    by (simp_all add: demo_defs op_defs)
  from create_referral_first_fit [of demo_all_busy 0 0 1 9] busy
  have none: "create_referral demo_all_busy 0 0 1 None 9 = (None, demo_all_busy)"
    by blast
  from create_referral_first_fit [of demo_dispatched 1 1 0 2] len fit
  have "\<exists>rf w'. create_referral demo_dispatched 1 1 0 None 2 = (Some rf, w') \<and>
         r_ambulance rf = ambulances demo_dispatched ! 1 \<and>
         r_patient rf = 1 \<and> r_from_hospital rf = 1 \<and>
         r_to_hospital rf = 0 \<and> r_timestamp rf = 2 \<and>
         r_id rf = int (length (referral_requests demo_dispatched)) + 1 \<and>
         r_status rf = ''in_transit'' \<and>
         a_status (ambulance_heap w' (ambulances demo_dispatched ! 1)) = ''dispatched'' \<and>
         current_patient (ambulance_heap w' (ambulances demo_dispatched ! 1)) = Some 1 \<and>
         destination (ambulance_heap w' (ambulances demo_dispatched ! 1)) = Some 0 \<and>
         referral_requests w' = referral_requests demo_dispatched @ [rf]"
    by blast
  then have some: "\<exists>rf w'. create_referral demo_dispatched 1 1 0 None 2 = (Some rf, w') \<and>
      r_ambulance rf = 1 \<and> r_id rf = 2 \<and> r_status rf = ''in_transit'' \<and>
      a_status (ambulance_heap w' 1) = ''dispatched'' \<and>
      current_patient (ambulance_heap w' 1) = Some 1 \<and>
      destination (ambulance_heap w' 1) = Some 0 \<and>
      referral_requests w' = referral_requests demo_dispatched @ [rf]"
    unfolding a1 by auto
  have "a_status (ambulance_heap demo_dispatched (ambulances demo_dispatched ! 0)) \<noteq> ''available''"
    by (simp add: demo_defs op_defs)
  with fit some none show ?thesis by blast
qed

section \<open>Hospital beds\<close>

lemma admit_patient_hospital:
  "hospital_heap (snd (admit_patient w h p)) =
     (if 0 < available_beds (hospital_heap w h)
      then (hospital_heap w)
             (h := (hospital_heap w h)\<lparr>available_beds := available_beds (hospital_heap w h) - 1,
                     referrals_received := referrals_received (hospital_heap w h) @ [p]\<rparr>)
      else hospital_heap w)"
  by (simp add: admit_patient_def Let_def)

lemma discharge_patient_hospital:
  "hospital_heap (snd (discharge_patient w h p)) =
     (if p \<in> set (referrals_received (hospital_heap w h))
      then (hospital_heap w)
             (h := (hospital_heap w h)\<lparr>referrals_received :=
                        remove1 p (referrals_received (hospital_heap w h)),
                     available_beds := available_beds (hospital_heap w h) + 1\<rparr>)
      else hospital_heap w)"
  by (simp add: discharge_patient_def Let_def)

lemma admit_patient_fst:
  "fst (admit_patient w h p) = (0 < available_beds (hospital_heap w h))"
  by (simp add: admit_patient_def Let_def)

lemma discharge_patient_fst:
  "fst (discharge_patient w h p) = (p \<in> set (referrals_received (hospital_heap w h)))"
  by (simp add: discharge_patient_def Let_def)

lemma hosp_inv_admit:
  assumes "hosp_inv (hospital_heap w h)"
  shows "hosp_inv (hospital_heap (snd (admit_patient w h' p)) h)"
  using assms by (auto simp: admit_patient_hospital hosp_inv_def)

lemma hosp_inv_discharge:
  assumes "hosp_inv (hospital_heap w h)"
  shows "hosp_inv (hospital_heap (snd (discharge_patient w h' p)) h)"
proof (cases "h = h' \<and> p \<in> set (referrals_received (hospital_heap w h'))")
  case True
  then have mem: "p \<in> set (referrals_received (hospital_heap w h))" by simp
  then have pos: "0 < length (referrals_received (hospital_heap w h))"
    by (cases "referrals_received (hospital_heap w h)") auto
  have len: "int (length (remove1 p (referrals_received (hospital_heap w h)))) =
      int (length (referrals_received (hospital_heap w h))) - 1"
  proof -
    have "length (remove1 p (referrals_received (hospital_heap w h))) =
        length (referrals_received (hospital_heap w h)) - 1"
      using mem by (simp add: length_remove1)
    with pos show ?thesis by linarith
  qed
  show ?thesis
    using assms True len pos by (simp add: discharge_patient_hospital hosp_inv_def)
next
  case False
  then show ?thesis
    using assms by (auto simp: discharge_patient_hospital)
qed

text \<open>
  C6. For a hospital constructed with a capacity that is not negative (the data model's
  capacity), \<open>hosp_inv\<close> holds initially: \<open>0 \<le> available_beds \<le> capacity\<close> and
  \<open>available_beds + len(referrals_received) = capacity\<close>. Every \<open>admit_patient\<close> and
  every \<open>discharge_patient\<close> call, on this hospital or on another, preserves it and
  leaves the capacity alone. A successful admit lowers \<open>available_beds\<close> by exactly 1, a
  successful discharge raises it by exactly 1, and a failed call changes nothing.
\<close>

theorem hospital_beds_invariant:
  "(0 \<le> cap \<longrightarrow> hosp_inv (Hospital_init name location cap htype)) \<and>
   (hosp_inv (hospital_heap w h) \<longrightarrow>
      hosp_inv (hospital_heap (snd (admit_patient w h' p)) h) \<and>
      hosp_inv (hospital_heap (snd (discharge_patient w h' p)) h)) \<and>
   (fst (admit_patient w h p) \<longrightarrow>
      available_beds (hospital_heap (snd (admit_patient w h p)) h) =
        available_beds (hospital_heap w h) - 1) \<and>
   (fst (discharge_patient w h p) \<longrightarrow>
      available_beds (hospital_heap (snd (discharge_patient w h p)) h) =
        available_beds (hospital_heap w h) + 1) \<and>
   (\<not> fst (admit_patient w h p) \<longrightarrow> snd (admit_patient w h p) = w) \<and>
   (\<not> fst (discharge_patient w h p) \<longrightarrow> snd (discharge_patient w h p) = w) \<and>
   capacity (hospital_heap (snd (admit_patient w h' p)) h) = capacity (hospital_heap w h) \<and>
   capacity (hospital_heap (snd (discharge_patient w h' p)) h) = capacity (hospital_heap w h)"
proof (intro conjI impI)
  assume "0 \<le> cap"
  then show "hosp_inv (Hospital_init name location cap htype)"
    by (simp add: hosp_inv_def Hospital_init_def)
next
  assume "hosp_inv (hospital_heap w h)"
  then show "hosp_inv (hospital_heap (snd (admit_patient w h' p)) h)"
    by (rule hosp_inv_admit)
next
  assume "hosp_inv (hospital_heap w h)"
  then show "hosp_inv (hospital_heap (snd (discharge_patient w h' p)) h)"
    by (rule hosp_inv_discharge)
next
  assume "fst (admit_patient w h p)"
  then show "available_beds (hospital_heap (snd (admit_patient w h p)) h) =
        available_beds (hospital_heap w h) - 1"
    by (simp add: admit_patient_fst admit_patient_hospital)
next
  assume "fst (discharge_patient w h p)"
  then show "available_beds (hospital_heap (snd (discharge_patient w h p)) h) =
        available_beds (hospital_heap w h) + 1"
    by (simp add: discharge_patient_fst discharge_patient_hospital)
next
  assume "\<not> fst (admit_patient w h p)"
  then show "snd (admit_patient w h p) = w"
    by (simp add: admit_patient_def Let_def split: if_splits)
next
  assume "\<not> fst (discharge_patient w h p)"
  then show "snd (discharge_patient w h p) = w"
    by (simp add: discharge_patient_def Let_def split: if_splits)
next
  show "capacity (hospital_heap (snd (admit_patient w h' p)) h) = capacity (hospital_heap w h)"
    by (simp add: admit_patient_hospital)
next
  show "capacity (hospital_heap (snd (discharge_patient w h' p)) h) = capacity (hospital_heap w h)"
    by (simp add: discharge_patient_hospital)
qed

theorem hospital_beds_invariant_witness:
  "hosp_inv (Hospital_init ''Hospital A'' (0, 0) 5 ''general'') \<and>
   hosp_inv (hospital_heap demo_world 0) \<and>
   fst (admit_patient demo_world 0 0) \<and>
   hosp_inv (hospital_heap (snd (admit_patient demo_world 0 0)) 0) \<and>
   available_beds (hospital_heap (snd (admit_patient demo_world 0 0)) 0) = 4 \<and>
   fst (discharge_patient demo_admitted 0 0) \<and>
   hosp_inv (hospital_heap (snd (discharge_patient demo_admitted 0 0)) 0) \<and>
   available_beds (hospital_heap (snd (discharge_patient demo_admitted 0 0)) 0) = 5 \<and>
   \<not> fst (discharge_patient demo_world 0 0) \<and>
   snd (discharge_patient demo_world 0 0) = demo_world"
proof -
  have cap: "(0::int) \<le> 5" by simp
  have i0: "hosp_inv (hospital_heap demo_world 0)"
    by (simp add: demo_defs hosp_inv_def)
  have i1: "hosp_inv (hospital_heap demo_admitted 0)"
    by (simp add: demo_defs op_defs hosp_inv_def)
  have a: "fst (admit_patient demo_world 0 0)"
    by (simp add: demo_defs op_defs)
  have d: "fst (discharge_patient demo_admitted 0 0)"
    by (simp add: demo_defs op_defs)
  have nd: "\<not> fst (discharge_patient demo_world 0 0)"
    by (simp add: demo_defs op_defs)
  have b0: "available_beds (hospital_heap demo_world 0) = 5"
    by (simp add: demo_defs)
  have b1: "available_beds (hospital_heap demo_admitted 0) = 4"
    by (simp add: demo_defs op_defs)
  note A = hospital_beds_invariant [of 5 "''Hospital A''" "(0, 0)" "''general''" demo_world 0 0 0]
  note D = hospital_beds_invariant [of 5 "''Hospital A''" "(0, 0)" "''general''" demo_admitted 0 0 0]
  from A cap have "hosp_inv (Hospital_init ''Hospital A'' (0, 0) 5 ''general'')" by blast
  moreover from A i0 have "hosp_inv (hospital_heap (snd (admit_patient demo_world 0 0)) 0)"
    by blast
  moreover from A a b0
  have "available_beds (hospital_heap (snd (admit_patient demo_world 0 0)) 0) = 4" by simp
  moreover from D i1
  have "hosp_inv (hospital_heap (snd (discharge_patient demo_admitted 0 0)) 0)" by blast
  moreover from D d b1
  have "available_beds (hospital_heap (snd (discharge_patient demo_admitted 0 0)) 0) = 5"
    by simp
  moreover from A nd have "snd (discharge_patient demo_world 0 0) = demo_world" by blast
  ultimately show ?thesis using i0 a d nd by blast
qed

text \<open>
  C10. \<open>admit_patient\<close> tests \<open>available_beds > 0\<close> and nothing else: for every world,
  hospital and patient, whatever the patient's status and whether or not the hospital
  already stores the patient, the call succeeds when a bed is free, lowers
  \<open>available_beds\<close> by 1 and appends the patient. With two beds free, admitting the same
  patient twice succeeds twice, lowers \<open>available_beds\<close> by 2 and stores the patient twice.
\<close>

theorem admit_patient_unchecked:
  "(0 < available_beds (hospital_heap w h) \<longrightarrow>
      (\<exists>w1. admit_patient w h p = (True, w1) \<and>
         available_beds (hospital_heap w1 h) = available_beds (hospital_heap w h) - 1 \<and>
         referrals_received (hospital_heap w1 h) = referrals_received (hospital_heap w h) @ [p] \<and>
         p_status (patient_heap w1 p) = ''admitted'')) \<and>
   (2 \<le> available_beds (hospital_heap w h) \<longrightarrow>
      (\<exists>w1 w2. admit_patient w h p = (True, w1) \<and> admit_patient w1 h p = (True, w2) \<and>
         available_beds (hospital_heap w2 h) = available_beds (hospital_heap w h) - 2 \<and>
         referrals_received (hospital_heap w2 h) =
           referrals_received (hospital_heap w h) @ [p, p]))"
  by (simp add: admit_patient_def Let_def)

theorem admit_patient_unchecked_witness:
  "p_status (patient_heap demo_admitted 0) = ''admitted'' \<and>
   referrals_received (hospital_heap demo_admitted 0) = [0] \<and>
   available_beds (hospital_heap demo_admitted 0) = 4 \<and>
   (\<exists>w1. admit_patient demo_admitted 0 0 = (True, w1) \<and>
      available_beds (hospital_heap w1 0) = 3 \<and>
      referrals_received (hospital_heap w1 0) = [0, 0] \<and>
      p_status (patient_heap w1 0) = ''admitted'') \<and>
   (\<exists>w1 w2. admit_patient demo_world 0 0 = (True, w1) \<and>
      admit_patient w1 0 0 = (True, w2) \<and>
      available_beds (hospital_heap w2 0) = 3 \<and>
      referrals_received (hospital_heap w2 0) = [0, 0])"
proof -
  have st: "p_status (patient_heap demo_admitted 0) = ''admitted''"
    and rr: "referrals_received (hospital_heap demo_admitted 0) = [0]"
    and b1: "available_beds (hospital_heap demo_admitted 0) = 4"
    by (simp_all add: demo_defs op_defs)
  have rr0: "referrals_received (hospital_heap demo_world 0) = []"
    and b0: "available_beds (hospital_heap demo_world 0) = 5"
    by (simp_all add: demo_defs)
  from admit_patient_unchecked [of demo_admitted 0 0] b1 rr
  have one: "\<exists>w1. admit_patient demo_admitted 0 0 = (True, w1) \<and>
      available_beds (hospital_heap w1 0) = 3 \<and>
      referrals_received (hospital_heap w1 0) = [0, 0] \<and>
      p_status (patient_heap w1 0) = ''admitted''"
    by simp
  from admit_patient_unchecked [of demo_world 0 0] b0 rr0
  have two: "\<exists>w1 w2. admit_patient demo_world 0 0 = (True, w1) \<and>
      admit_patient w1 0 0 = (True, w2) \<and>
      available_beds (hospital_heap w2 0) = 3 \<and>
      referrals_received (hospital_heap w2 0) = [0, 0]"
    by simp
  from st rr b1 one two show ?thesis by blast
qed

section \<open>Completing a referral\<close>

text \<open>
  C1, as the code has it. For every referral record that \<open>complete_referral\<close> finds (the
  first record of the ledger with the id), the call sets the bound ambulance's status to
  "available" and clears its \<open>current_patient\<close> and \<open>destination\<close>; \<open>route\<close> and
  \<open>eta\<close> are left as they were. It stamps \<open>transfer_completion_time\<close> of the patient
  that ambulance holds when the call is made, if any: the referral's own patient when
  the ambulance still holds it, as it does for a referral in transit of a regular session
  (\<open>ledger_inv\<close>). It sets the record's status to "completed" and appends
  exactly one history row, whose Patient, From Hospital, To Hospital and Ambulance are
  those of the referral, whose Request Time is the referral's timestamp and whose
  Completion Time is the clock reading of the call, so Completion Time is at least
  Request Time whenever that reading is not earlier than the timestamp.
\<close>

theorem complete_referral_effect:
  assumes "find (\<lambda>r. r_id r = referral_id) (referral_requests w) = Some rf"
  shows "\<exists>w' row.
     complete_referral w referral_id now1 now2 = (Some (rf\<lparr>r_status := ''completed''\<rparr>), w') \<and>
     ambulance_heap w' =
       (ambulance_heap w)
         (r_ambulance rf := (ambulance_heap w (r_ambulance rf))
            \<lparr>a_status := ''available'', current_patient := None, destination := None\<rparr>) \<and>
     route (ambulance_heap w' (r_ambulance rf)) = route (ambulance_heap w (r_ambulance rf)) \<and>
     eta (ambulance_heap w' (r_ambulance rf)) = eta (ambulance_heap w (r_ambulance rf)) \<and>
     patient_heap w' =
       (case current_patient (ambulance_heap w (r_ambulance rf)) of
          None \<Rightarrow> patient_heap w
        | Some q \<Rightarrow> (patient_heap w)
            (q := (patient_heap w q)\<lparr>transfer_completion_time := Some now1\<rparr>)) \<and>
     (current_patient (ambulance_heap w (r_ambulance rf)) = Some (r_patient rf) \<longrightarrow>
        transfer_completion_time (patient_heap w' (r_patient rf)) = Some now1) \<and>
     (ledger_inv w \<and> r_status rf = ''in_transit'' \<longrightarrow>
        transfer_completion_time (patient_heap w' (r_patient rf)) = Some now1) \<and>
     hospital_heap w' = hospital_heap w \<and>
     referral_requests w' =
       update_first (\<lambda>r. r_id r = referral_id) (\<lambda>r. r\<lparr>r_status := ''completed''\<rparr>)
         (referral_requests w) \<and>
     find (\<lambda>r. r_id r = referral_id) (referral_requests w') =
       Some (rf\<lparr>r_status := ''completed''\<rparr>) \<and>
     referral_history w' = referral_history w @ [row] \<and>
     col_Patient row = p_name (patient_heap w (r_patient rf)) \<and>
     col_From_Hospital row = h_name (hospital_heap w (r_from_hospital rf)) \<and>
     col_To_Hospital row = h_name (hospital_heap w (r_to_hospital rf)) \<and>
     col_Ambulance row = a_id (ambulance_heap w (r_ambulance rf)) \<and>
     col_Status row = ''completed'' \<and>
     col_Request_Time row = r_timestamp rf \<and>
     col_Completion_Time row = now2 \<and>
     (r_timestamp rf \<le> now2 \<longrightarrow> col_Request_Time row \<le> col_Completion_Time row)"
proof -
  have f: "find (\<lambda>r. r_id r = referral_id)
      (update_first (\<lambda>r. r_id r = referral_id) (\<lambda>r. r\<lparr>r_status := ''completed''\<rparr>)
         (referral_requests w)) = Some (rf\<lparr>r_status := ''completed''\<rparr>)"
    using assms by (simp add: find_update_first)
  have held: "current_patient (ambulance_heap w (r_ambulance rf)) = Some (r_patient rf)"
    if "ledger_inv w \<and> r_status rf = ''in_transit''"
    using that assms by (simp add: in_transit_holds_patient)
  show ?thesis
    unfolding complete_referral_found [OF assms]
    using f held
    by (auto simp: complete_transfer_ambulance complete_transfer_patient complete_transfer_rest
        split: option.splits)
qed

theorem complete_referral_effect_witness:
  "find (\<lambda>r. r_id r = 1) (referral_requests demo_dispatched) =
     Some \<lparr>r_id = 1, r_patient = 0, r_from_hospital = 0, r_to_hospital = 1, r_ambulance = 0,
           r_timestamp = 0, r_status = ''in_transit''\<rparr> \<and>
   current_patient (ambulance_heap demo_dispatched 0) = Some 0 \<and>
   ledger_inv demo_dispatched \<and>
   (\<exists>w'. complete_referral demo_dispatched 1 30 31 =
       (Some \<lparr>r_id = 1, r_patient = 0, r_from_hospital = 0, r_to_hospital = 1, r_ambulance = 0,
              r_timestamp = 0, r_status = ''completed''\<rparr>, w') \<and>
      a_status (ambulance_heap w' 0) = ''available'' \<and>
      current_patient (ambulance_heap w' 0) = None \<and>
      destination (ambulance_heap w' 0) = None \<and>
      transfer_completion_time (patient_heap w' 0) = Some 30 \<and>
      referral_history w' =
        [\<lparr>col_Patient = ''John Otieno'', col_From_Hospital = ''Hospital A'',
          col_To_Hospital = ''Hospital B'', col_Ambulance = ''AMB1'', col_Status = ''completed'',
          col_Request_Time = 0, col_Completion_Time = 31\<rparr>])"
proof -
  let ?rf = "\<lparr>r_id = 1, r_patient = 0, r_from_hospital = 0, r_to_hospital = 1, r_ambulance = 0,
           r_timestamp = 0, r_status = ''in_transit''\<rparr>"
  have found: "find (\<lambda>r. r_id r = 1) (referral_requests demo_dispatched) = Some ?rf"
    by (simp add: demo_defs op_defs)
  have cur: "current_patient (ambulance_heap demo_dispatched 0) = Some 0"
    by (simp add: demo_defs op_defs)
  have names: "p_name (patient_heap demo_dispatched 0) = ''John Otieno''"
    "h_name (hospital_heap demo_dispatched 0) = ''Hospital A''"
    "h_name (hospital_heap demo_dispatched 1) = ''Hospital B''"
    "a_id (ambulance_heap demo_dispatched 0) = ''AMB1''"
    "referral_history demo_dispatched = []"
    by (simp_all add: demo_defs op_defs)
  have "ledger_inv demo_world"
    unfolding demo_world_def
    by (intro ledger_inv_add ledger_inv_init) (simp add: demo_ambulances_def Ambulance_init_def)
  moreover have "regular_run demo_world [Create_referral 0 0 1 None 0]"
    by simp
  ultimately have li: "ledger_inv demo_dispatched"
    unfolding demo_dispatched_def by (rule ledger_inv_run)
  from complete_referral_effect [OF found, of 30 31]
  obtain w' row where
    c: "complete_referral demo_dispatched 1 30 31 = (Some (?rf\<lparr>r_status := ''completed''\<rparr>), w')"
    and a: "ambulance_heap w' = (ambulance_heap demo_dispatched)
         (r_ambulance ?rf := (ambulance_heap demo_dispatched (r_ambulance ?rf))
            \<lparr>a_status := ''available'', current_patient := None, destination := None\<rparr>)"
    and t: "ledger_inv demo_dispatched \<and> r_status ?rf = ''in_transit'' \<longrightarrow>
        transfer_completion_time (patient_heap w' (r_patient ?rf)) = Some 30"
    and h: "referral_history w' = referral_history demo_dispatched @ [row]"
    and r: "col_Patient row = p_name (patient_heap demo_dispatched (r_patient ?rf))"
     "col_From_Hospital row = h_name (hospital_heap demo_dispatched (r_from_hospital ?rf))"
     "col_To_Hospital row = h_name (hospital_heap demo_dispatched (r_to_hospital ?rf))"
     "col_Ambulance row = a_id (ambulance_heap demo_dispatched (r_ambulance ?rf))"
     "col_Status row = ''completed''"
     "col_Request_Time row = r_timestamp ?rf"
     "col_Completion_Time row = 31"
    by blast
  have row: "row = \<lparr>col_Patient = ''John Otieno'', col_From_Hospital = ''Hospital A'',
          col_To_Hospital = ''Hospital B'', col_Ambulance = ''AMB1'', col_Status = ''completed'',
          col_Request_Time = 0, col_Completion_Time = 31\<rparr>"
    using r names by (cases row) simp
  have "transfer_completion_time (patient_heap w' 0) = Some 30"
    using t li by simp
  with c a h row names found cur li show ?thesis
    by simp
qed

text \<open>
  C1 as stated fails twice. After a tracked transfer the released ambulance keeps its
  six-point route and its ETA. And the second completion of referral 1, made while the
  same ambulance is out on referral 2, leaves the stamp of referral 1's patient at the
  old reading and stamps the patient of referral 2.
\<close>

theorem complete_referral_effect_counterexample:
  "map r_id (referral_requests demo_en_route) = [1] \<and>
   fst (complete_referral demo_en_route 1 200 200) \<noteq> None \<and>
   a_status (ambulance_heap (snd (complete_referral demo_en_route 1 200 200)) 0) = ''available'' \<and>
   length (route (ambulance_heap (snd (complete_referral demo_en_route 1 200 200)) 0)) = 6 \<and>
   eta (ambulance_heap (snd (complete_referral demo_en_route 1 200 200)) 0) = Some 158 \<and>
   map r_id (referral_requests demo_reused) = [1, 2] \<and>
   map r_patient (referral_requests demo_reused) = [0, 1] \<and>
   fst (complete_referral demo_reused 1 30 30) \<noteq> None \<and>
   transfer_completion_time (patient_heap (snd (complete_referral demo_reused 1 30 30)) 0) = Some 10 \<and>
   transfer_completion_time (patient_heap demo_reused 1) = None \<and>
   transfer_completion_time (patient_heap (snd (complete_referral demo_reused 1 30 30)) 1) = Some 30"
  by (simp add: demo_defs op_defs tracker_defs)

text \<open>
  C5. Completing the same id twice is not idempotent: the first call releases the
  ambulance, the second call finds the record again, succeeds with the same record, and
  appends a second row that differs from the first in its Completion Time only. The
  history ends with two rows for that referral.
\<close>

theorem complete_referral_twice:
  assumes "find (\<lambda>r. r_id r = referral_id) (referral_requests w) = Some rf"
  shows "\<exists>w1 w2 row.
     complete_referral w referral_id t1 t2 = (Some (rf\<lparr>r_status := ''completed''\<rparr>), w1) \<and>
     a_status (ambulance_heap w1 (r_ambulance rf)) = ''available'' \<and>
     current_patient (ambulance_heap w1 (r_ambulance rf)) = None \<and>
     complete_referral w1 referral_id t3 t4 = (Some (rf\<lparr>r_status := ''completed''\<rparr>), w2) \<and>
     referral_history w2 = referral_history w @ [row, row\<lparr>col_Completion_Time := t4\<rparr>] \<and>
     col_Patient row = p_name (patient_heap w (r_patient rf)) \<and>
     col_From_Hospital row = h_name (hospital_heap w (r_from_hospital rf)) \<and>
     col_To_Hospital row = h_name (hospital_heap w (r_to_hospital rf)) \<and>
     col_Ambulance row = a_id (ambulance_heap w (r_ambulance rf)) \<and>
     col_Status row = ''completed'' \<and>
     col_Request_Time row = r_timestamp rf \<and>
     col_Completion_Time row = t2"
proof -
  let ?P = "\<lambda>r. r_id r = referral_id"
  let ?f = "\<lambda>r. r\<lparr>r_status := ''completed''\<rparr>"
  let ?row = "\<lparr>col_Patient = p_name (patient_heap w (r_patient rf)),
             col_From_Hospital = h_name (hospital_heap w (r_from_hospital rf)),
             col_To_Hospital = h_name (hospital_heap w (r_to_hospital rf)),
             col_Ambulance = a_id (ambulance_heap w (r_ambulance rf)),
             col_Status = ''completed'',
             col_Request_Time = r_timestamp rf,
             col_Completion_Time = t2\<rparr>"
  let ?w1 = "(complete_transfer w (r_ambulance rf) t1)
        \<lparr>referral_requests := update_first ?P ?f (referral_requests w),
         referral_history := referral_history w @ [?row]\<rparr>"
  have c1: "complete_referral w referral_id t1 t2 = (Some (?f rf), ?w1)"
    by (rule complete_referral_found [OF assms])
  have found1: "find ?P (referral_requests ?w1) = Some (?f rf)"
    using assms by (simp add: find_update_first)
  obtain w2 where c2: "complete_referral ?w1 referral_id t3 t4 = (Some (?f rf), w2)"
    and h2: "referral_history w2 = referral_history ?w1 @ [?row\<lparr>col_Completion_Time := t4\<rparr>]"
    using complete_referral_found [OF found1, of t3 t4]
    by (simp add: complete_transfer_rest complete_transfer_p_name complete_transfer_a_id)
  have free: "a_status (ambulance_heap ?w1 (r_ambulance rf)) = ''available''"
    "current_patient (ambulance_heap ?w1 (r_ambulance rf)) = None"
    by (simp_all add: complete_transfer_ambulance)
  have h: "referral_history w2 = referral_history w @ [?row, ?row\<lparr>col_Completion_Time := t4\<rparr>]"
    using h2 by simp
  show ?thesis
    apply (rule exI [of _ ?w1])
    apply (rule exI [of _ w2])
    apply (rule exI [of _ ?row])
    using c1 c2 free h by simp
qed

theorem complete_referral_twice_witness:
  "\<exists>w1 w2. complete_referral demo_dispatched 1 30 31 = (Some \<lparr>r_id = 1, r_patient = 0, r_from_hospital = 0, r_to_hospital = 1, r_ambulance = 0,
              r_timestamp = 0, r_status = ''completed''\<rparr>, w1) \<and>
     complete_referral w1 1 40 41 = (Some \<lparr>r_id = 1, r_patient = 0, r_from_hospital = 0, r_to_hospital = 1, r_ambulance = 0,
              r_timestamp = 0, r_status = ''completed''\<rparr>, w2) \<and>
     referral_history w2 =
        [\<lparr>col_Patient = ''John Otieno'', col_From_Hospital = ''Hospital A'',
          col_To_Hospital = ''Hospital B'', col_Ambulance = ''AMB1'', col_Status = ''completed'',
          col_Request_Time = 0, col_Completion_Time = 31\<rparr>,
         \<lparr>col_Patient = ''John Otieno'', col_From_Hospital = ''Hospital A'',
          col_To_Hospital = ''Hospital B'', col_Ambulance = ''AMB1'', col_Status = ''completed'',
          col_Request_Time = 0, col_Completion_Time = 41\<rparr>]"
proof -
  let ?rf = "\<lparr>r_id = 1, r_patient = 0, r_from_hospital = 0, r_to_hospital = 1, r_ambulance = 0,
           r_timestamp = 0, r_status = ''in_transit''\<rparr>"
  have found: "find (\<lambda>r. r_id r = 1) (referral_requests demo_dispatched) = Some ?rf"
    by (simp add: demo_defs op_defs)
  have names: "p_name (patient_heap demo_dispatched 0) = ''John Otieno''"
    "h_name (hospital_heap demo_dispatched 0) = ''Hospital A''"
    "h_name (hospital_heap demo_dispatched 1) = ''Hospital B''"
    "a_id (ambulance_heap demo_dispatched 0) = ''AMB1''"
    "referral_history demo_dispatched = []"
    by (simp_all add: demo_defs op_defs)
  from complete_referral_twice [OF found, of 30 31 40 41]
  obtain w1 w2 row where
    c1: "complete_referral demo_dispatched 1 30 31 = (Some (?rf\<lparr>r_status := ''completed''\<rparr>), w1)"
    and c2: "complete_referral w1 1 40 41 = (Some (?rf\<lparr>r_status := ''completed''\<rparr>), w2)"
    and h: "referral_history w2 = referral_history demo_dispatched @ [row, row\<lparr>col_Completion_Time := 41\<rparr>]"
    and r: "col_Patient row = p_name (patient_heap demo_dispatched (r_patient ?rf))"
     "col_From_Hospital row = h_name (hospital_heap demo_dispatched (r_from_hospital ?rf))"
     "col_To_Hospital row = h_name (hospital_heap demo_dispatched (r_to_hospital ?rf))"
     "col_Ambulance row = a_id (ambulance_heap demo_dispatched (r_ambulance ?rf))"
     "col_Status row = ''completed''"
     "col_Request_Time row = r_timestamp ?rf"
     "col_Completion_Time row = 31"
    by blast
  have row: "row = \<lparr>col_Patient = ''John Otieno'', col_From_Hospital = ''Hospital A'',
          col_To_Hospital = ''Hospital B'', col_Ambulance = ''AMB1'', col_Status = ''completed'',
          col_Request_Time = 0, col_Completion_Time = 31\<rparr>"
    using r names by (cases row) simp
  from c1 c2 h row names show ?thesis
    by simp
qed

section \<open>Dispatch\<close>

text \<open>
  C2, as the code has it. \<open>create_referral\<close> selects an ambulance that is not
  "available" only when the caller supplies it: without a supplied ambulance the selected
  one is registered and its status is "available", and the call fails, changing nothing,
  exactly when no registered ambulance is available; a supplied ambulance is taken
  whatever its status. After every successful call the selected ambulance has status
  "dispatched" and holds the patient and the destination, and no other ambulance has
  changed; whenever the selected ambulance was "available" before the call, as it always
  is when none was supplied, it has changed, and is the one ambulance that has gone from
  "available" to "dispatched". Exactly one record, with status "in\_transit", has been
  appended to the ledger; patients, hospitals and history are untouched.
\<close>

theorem create_referral_dispatch:
  assumes "create_referral w p from_hospital to_hospital amb_arg now = (res, w')"
  shows "case res of
      None \<Rightarrow>
        amb_arg = None \<and>
        list_all (\<lambda>a. a_status (ambulance_heap w a) \<noteq> ''available'') (ambulances w) \<and>
        w' = w
    | Some rf \<Rightarrow>
        (amb_arg = None \<longrightarrow>
           r_ambulance rf \<in> set (ambulances w) \<and>
           a_status (ambulance_heap w (r_ambulance rf)) = ''available'') \<and>
        (\<forall>a. amb_arg = Some a \<longrightarrow> r_ambulance rf = a) \<and>
        ambulance_heap w' =
          (ambulance_heap w)
            (r_ambulance rf := (ambulance_heap w (r_ambulance rf))
               \<lparr>a_status := ''dispatched'', current_patient := Some p,
                destination := Some to_hospital\<rparr>) \<and>
        a_status (ambulance_heap w' (r_ambulance rf)) = ''dispatched'' \<and>
        current_patient (ambulance_heap w' (r_ambulance rf)) = Some p \<and>
        destination (ambulance_heap w' (r_ambulance rf)) = Some to_hospital \<and>
        (\<forall>b. b \<noteq> r_ambulance rf \<longrightarrow> ambulance_heap w' b = ambulance_heap w b) \<and>
        (a_status (ambulance_heap w (r_ambulance rf)) = ''available'' \<longrightarrow>
           ambulance_heap w' (r_ambulance rf) \<noteq> ambulance_heap w (r_ambulance rf)) \<and>
        r_status rf = ''in_transit'' \<and>
        referral_requests w' = referral_requests w @ [rf] \<and>
        patient_heap w' = patient_heap w \<and>
        hospital_heap w' = hospital_heap w \<and>
        referral_history w' = referral_history w"
proof -
  have changed: "a\<lparr>a_status := ''dispatched'', current_patient := Some p,
      destination := Some to_hospital\<rparr> \<noteq> a" if "a_status a = ''available''" for a :: ambulance
  proof
    assume "a\<lparr>a_status := ''dispatched'', current_patient := Some p,
      destination := Some to_hospital\<rparr> = a"
    then have "a_status (a\<lparr>a_status := ''dispatched'', current_patient := Some p,
      destination := Some to_hospital\<rparr>) = a_status a" by simp
    with that show False by simp
  qed
  show ?thesis
  proof (cases amb_arg)
    case None
    show ?thesis
    proof (cases "find_available_ambulance w")
      case N: None
      with None assms have "res = None" "w' = w"
        by (simp_all add: create_referral_def)
      with None find_available_ambulance_None [OF N] show ?thesis by simp
    next
      case (Some a)
      note fa = find_available_ambulance_Some [OF Some]
      from None Some assms show ?thesis
        using fa changed by (auto simp: create_referral_def dispatch_def Let_def)
    qed
  next
    case (Some a)
    with assms show ?thesis
      using changed by (auto simp: create_referral_def dispatch_def Let_def)
  qed
qed

theorem create_referral_dispatch_witness:
  "\<exists>rf w'. create_referral demo_dispatched 1 1 0 None 5 = (Some rf, w') \<and>
     r_ambulance rf = 1 \<and>
     a_status (ambulance_heap demo_dispatched 1) = ''available'' \<and>
     a_status (ambulance_heap w' 1) = ''dispatched'' \<and>
     ambulance_heap w' 0 = ambulance_heap demo_dispatched 0 \<and>
     r_status rf = ''in_transit'' \<and>
     referral_requests w' = referral_requests demo_dispatched @ [rf]"
proof -
  obtain res w' where c: "create_referral demo_dispatched 1 1 0 None 5 = (res, w')"
    by (cases "create_referral demo_dispatched 1 1 0 None 5")
  then have "res \<noteq> None" and amb: "map_option r_ambulance res = Some 1"
    by (auto simp: demo_defs op_defs)
  then obtain rf where res: "res = Some rf" and a: "r_ambulance rf = 1" by auto
  from create_referral_dispatch [OF c] res a
  have "a_status (ambulance_heap demo_dispatched 1) = ''available''"
    "a_status (ambulance_heap w' 1) = ''dispatched''"
    "ambulance_heap w' 0 = ambulance_heap demo_dispatched 0"
    "r_status rf = ''in_transit''"
    "referral_requests w' = referral_requests demo_dispatched @ [rf]"
    by simp_all
  with c res a show ?thesis by simp
qed

text \<open>
  C2 as stated fails for a supplied ambulance: AMB1, already dispatched with John Otieno,
  is selected again when the caller passes it, and is rebound to the second patient, while
  AMB2 stays available. No ambulance has gone from "available" to "dispatched". Passed
  again for the same patient and destination, AMB1 is selected and no ambulance changes
  at all.
\<close>

theorem create_referral_dispatch_counterexample:
  "a_status (ambulance_heap demo_dispatched 0) = ''dispatched'' \<and>
   current_patient (ambulance_heap demo_dispatched 0) = Some 0 \<and>
   map_option r_ambulance (fst (create_referral demo_dispatched 1 1 0 (Some 0) 5)) = Some 0 \<and>
   current_patient (ambulance_heap (snd (create_referral demo_dispatched 1 1 0 (Some 0) 5)) 0) = Some 1 \<and>
   a_status (ambulance_heap (snd (create_referral demo_dispatched 1 1 0 (Some 0) 5)) 1) = ''available'' \<and>
   map_option r_ambulance (fst (create_referral demo_dispatched 0 0 1 (Some 0) 5)) = Some 0 \<and>
   ambulance_heap (snd (create_referral demo_dispatched 0 0 1 (Some 0) 5)) =
     ambulance_heap demo_dispatched"
  by (simp add: demo_defs op_defs)

section \<open>The ambulance invariant\<close>

lemma amb_inv_exec:
  assumes inv: "\<forall>b. amb_inv (ambulance_heap w b)" and use: "in_use w c"
  shows "\<forall>b. amb_inv (ambulance_heap (exec w c) b)"
proof (cases c)
  case (Create_referral p f t a now)
  with inv show ?thesis
    by (auto simp: create_referral_def dispatch_def Let_def amb_inv_def split: option.splits)
next
  case (Complete_referral i now1 now2)
  with inv show ?thesis
    by (auto simp: complete_referral_def complete_transfer_def Let_def amb_inv_def
        split: option.splits)
next
  case (Simulate_movement a dest speed now km jitter)
  with use have busy: "a_status (ambulance_heap w a) \<noteq> ''available''" by simp
  with inv have "current_patient (ambulance_heap w a) \<noteq> None"
    by (simp add: amb_inv_def)
  with inv Simulate_movement show ?thesis
    by (auto simp: simulate_movement_def generate_route_def Let_def amb_inv_def)
qed

lemma amb_inv_run:
  "\<forall>b. amb_inv (ambulance_heap w b) \<Longrightarrow> tracked_in_use w cs \<Longrightarrow>
   \<forall>b. amb_inv (ambulance_heap (run w cs) b)"
proof (induction cs arbitrary: w)
  case Nil
  then show ?case by simp
next
  case (Cons c cs)
  from Cons.prems have "\<forall>b. amb_inv (ambulance_heap (exec w c) b)"
    by (simp add: amb_inv_exec)
  with Cons show ?case by simp
qed

text \<open>
  C3, as the code has it. "\<open>current_patient\<close> is set iff status is not available" holds
  for a new ambulance, and, once it holds for every ambulance, it holds for every
  ambulance after every sequence of \<open>create_referral\<close>, \<open>complete_referral\<close> and
  \<open>simulate_movement\<close> calls in which each \<open>simulate_movement\<close> is made on an ambulance
  whose status is not "available" at that moment.
\<close>

theorem ambulance_invariant:
  "amb_inv (Ambulance_init amb_id location) \<and>
   ((\<forall>b. amb_inv (ambulance_heap w b)) \<and> tracked_in_use w cs \<longrightarrow>
      (\<forall>b. amb_inv (ambulance_heap (run w cs) b)))"
  using amb_inv_run [of w cs]
  by (simp add: amb_inv_def Ambulance_init_def)

theorem ambulance_invariant_witness:
  "(\<forall>b. amb_inv (ambulance_heap demo_world b)) \<and>
   tracked_in_use demo_world
     [Create_referral 0 0 1 None 0, Simulate_movement 0 (1, 1) 60 1 157 no_jitter,
      Complete_referral 1 200 200] \<and>
   (\<forall>b. amb_inv (ambulance_heap (run demo_world
     [Create_referral 0 0 1 None 0, Simulate_movement 0 (1, 1) 60 1 157 no_jitter,
      Complete_referral 1 200 200]) b)) \<and>
   amb_inv (ambulance_heap demo_en_route 0) \<and>
   a_status (ambulance_heap demo_en_route 0) = ''en_route''"
proof -
  have i: "\<forall>b. amb_inv (ambulance_heap demo_world b)"
    by (simp add: demo_defs amb_inv_def)
  have t: "tracked_in_use demo_world
     [Create_referral 0 0 1 None 0, Simulate_movement 0 (1, 1) 60 1 157 no_jitter,
      Complete_referral 1 200 200]"
    by (simp add: demo_defs op_defs tracker_defs)
  have t2: "tracked_in_use demo_world
     [Create_referral 0 0 1 None 0, Simulate_movement 0 (1, 1) 60 1 157 no_jitter]"
    by (simp add: demo_defs op_defs tracker_defs)
  have s: "a_status (ambulance_heap demo_en_route 0) = ''en_route''"
    by (simp add: demo_defs op_defs tracker_defs)
  from ambulance_invariant [of "''AMB1''" "(0, 0)" demo_world
     "[Create_referral 0 0 1 None 0, Simulate_movement 0 (1, 1) 60 1 157 no_jitter,
      Complete_referral 1 200 200]"] i t
  have a: "\<forall>b. amb_inv (ambulance_heap (run demo_world
     [Create_referral 0 0 1 None 0, Simulate_movement 0 (1, 1) 60 1 157 no_jitter,
      Complete_referral 1 200 200]) b)"
    by blast
  from ambulance_invariant [of "''AMB1''" "(0, 0)" demo_world
     "[Create_referral 0 0 1 None 0, Simulate_movement 0 (1, 1) 60 1 157 no_jitter]"] i t2
  have "amb_inv (ambulance_heap demo_en_route 0)"
    unfolding demo_en_route_def by blast
  with i t a s show ?thesis by blast
qed

text \<open>
  C3 as stated fails at \<open>simulate_movement\<close>, which sets the status to "en\_route"
  whatever the ambulance holds: called on the new AMB1, it leaves an ambulance that is
  not available and has no patient.
\<close>

theorem ambulance_invariant_counterexample:
  "amb_inv (ambulance_heap demo_world 0) \<and>
   a_status (ambulance_heap (run demo_world [Simulate_movement 0 (1, 1) 60 1 157 no_jitter]) 0) = ''en_route'' \<and>
   current_patient (ambulance_heap (run demo_world [Simulate_movement 0 (1, 1) 60 1 157 no_jitter]) 0) = None \<and>
   \<not> amb_inv (ambulance_heap (run demo_world [Simulate_movement 0 (1, 1) 60 1 157 no_jitter]) 0)"
  by (simp add: demo_defs op_defs tracker_defs amb_inv_def)

section \<open>Routes\<close>

text \<open>
  What \<open>generate_route\<close> returns for a number of points that is not negative: that many
  points, the \<open>i\<close>-th one at fraction \<open>i / (n + 1)\<close> of the way plus the two draws of
  iteration \<open>i\<close>. \<open>simulate_movement\<close> stores six of them.
\<close>

lemma generate_route_length:
  assumes "0 \<le> n"
  shows "\<exists>pts. generate_route start endp n jitter = Inr pts \<and> length pts = nat n"
  using assms by (simp add: generate_route_def Let_def)

lemma generate_route_nth:
  assumes "1 \<le> i" and "i \<le> n" and "generate_route start endp n jitter = Inr pts"
  shows "pts ! nat (i - 1) =
     (fst start + (fst endp - fst start) * (of_int i / of_int (n + 1)) + fst (jitter i),
      snd start + (snd endp - snd start) * (of_int i / of_int (n + 1)) + snd (jitter i))"
proof -
  from assms have n: "n + 1 \<noteq> 0" by simp
  have idx: "[1..n] ! nat (i - 1) = i"
    using assms(1,2) by simp
  have len: "nat (i - 1) < length [1..n]"
    using assms(1,2) by simp
  from assms(3) n have "pts = map (\<lambda>i. (fst start + (fst endp - fst start) / of_int (n + 1) * of_int i + fst (jitter i),
                           snd start + (snd endp - snd start) / of_int (n + 1) * of_int i + snd (jitter i)))
                     [1..n]"
    by (simp add: generate_route_def Let_def)
  then show ?thesis
    using len idx by (simp add: nth_map [OF len])
qed

lemma simulate_movement_route:
  assumes "simulate_movement w a dest_loc speed_kmh now distance_km jitter = Inr (res, w')"
  shows "length (route (ambulance_heap w' a)) = 6 \<and>
     a_status (ambulance_heap w' a) = ''en_route'' \<and>
     eta (ambulance_heap w' a) = Some (now + distance_km / speed_kmh * 60) \<and>
     res = (distance_km, now + distance_km / speed_kmh * 60)"
  using assms
  by (auto simp: simulate_movement_def generate_route_def Let_def split: if_splits)

text \<open>
  C9. For every start, every end and every \<open>n \<ge> 0\<close>, \<open>generate_route\<close> returns
  exactly \<open>n\<close> points. The \<open>i\<close>-th point (\<open>1 \<le> i \<le> n\<close>) is the linear interpolation
  of start and end at fraction \<open>i / (n + 1)\<close>, moved in each coordinate by that
  coordinate's own draw of iteration \<open>i\<close>; with every draw in \<open>[-0.0005, 0.0005]\<close>, the
  range \<^verbatim>\<open>random.uniform\<close> is called with, each coordinate is within \<open>0.0005\<close> of the
  interpolation. The fractions lie strictly between 0 and 1 and grow strictly with \<open>i\<close>,
  from start toward end.
\<close>

theorem generate_route_interpolates:
  assumes "0 \<le> n"
    and "\<forall>i. 1 \<le> i \<and> i \<le> n \<longrightarrow>
           \<bar>fst (jitter i)\<bar> \<le> 5 / 10000 \<and> \<bar>snd (jitter i)\<bar> \<le> 5 / 10000"
  shows "\<exists>pts. generate_route start endp n jitter = Inr pts \<and> length pts = nat n \<and>
     (\<forall>i. 1 \<le> i \<and> i \<le> n \<longrightarrow>
        pts ! nat (i - 1) =
          (fst start + (fst endp - fst start) * (of_int i / of_int (n + 1)) + fst (jitter i),
           snd start + (snd endp - snd start) * (of_int i / of_int (n + 1)) + snd (jitter i)) \<and>
        \<bar>fst (pts ! nat (i - 1)) -
           (fst start + (fst endp - fst start) * (of_int i / of_int (n + 1)))\<bar> \<le> 5 / 10000 \<and>
        \<bar>snd (pts ! nat (i - 1)) -
           (snd start + (snd endp - snd start) * (of_int i / of_int (n + 1)))\<bar> \<le> 5 / 10000 \<and>
        (0::real) < of_int i / of_int (n + 1) \<and> (of_int i / of_int (n + 1) :: real) < 1) \<and>
     (\<forall>i j. 1 \<le> i \<and> i < j \<and> j \<le> n \<longrightarrow>
        (of_int i / of_int (n + 1) :: real) < of_int j / of_int (n + 1))"
proof -
  from generate_route_length [OF assms(1), of start endp jitter]
  obtain pts where g: "generate_route start endp n jitter = Inr pts"
    and len: "length pts = nat n"
    by blast
  have pos: "(0::real) < of_int (n + 1)"
    using assms(1) by simp
  have point: "pts ! nat (i - 1) =
          (fst start + (fst endp - fst start) * (of_int i / of_int (n + 1)) + fst (jitter i),
           snd start + (snd endp - snd start) * (of_int i / of_int (n + 1)) + snd (jitter i)) \<and>
        \<bar>fst (pts ! nat (i - 1)) -
           (fst start + (fst endp - fst start) * (of_int i / of_int (n + 1)))\<bar> \<le> 5 / 10000 \<and>
        \<bar>snd (pts ! nat (i - 1)) -
           (snd start + (snd endp - snd start) * (of_int i / of_int (n + 1)))\<bar> \<le> 5 / 10000 \<and>
        (0::real) < of_int i / of_int (n + 1) \<and> (of_int i / of_int (n + 1) :: real) < 1"
    if i: "1 \<le> i \<and> i \<le> n" for i
  proof -
    from i have i1: "1 \<le> i" and i2: "i \<le> n" by simp_all
    note p = generate_route_nth [OF i1 i2 g]
    from assms(2) i have j: "\<bar>fst (jitter i)\<bar> \<le> 5 / 10000" "\<bar>snd (jitter i)\<bar> \<le> 5 / 10000"
      by blast+
    have f0: "(0::real) < of_int i / of_int (n + 1)"
      using i1 pos by simp
    have "(of_int i :: real) < of_int (n + 1)"
      using i2 by linarith
    then have f1: "(of_int i / of_int (n + 1) :: real) < 1"
      using pos by simp
    show ?thesis
      using p j f0 f1 by simp
  qed
  have mono: "(of_int i / of_int (n + 1) :: real) < of_int j / of_int (n + 1)"
    if "1 \<le> i \<and> i < j \<and> j \<le> n" for i j
  proof -
    from that have "(of_int i :: real) < of_int j" by simp
    with pos show ?thesis by (simp add: divide_strict_right_mono)
  qed
  from g len point mono show ?thesis by blast
qed

theorem generate_route_interpolates_witness:
  "generate_route (0, 0) (4, 8) 3 demo_jitter =
     Inr [(1, 2), (2 + 5 / 10000, 4 - 5 / 10000), (3, 6)] \<and>
   (\<exists>pts. generate_route (0, 0) (4, 8) 3 demo_jitter = Inr pts \<and> length pts = 3 \<and>
      pts ! 1 = (2 + 5 / 10000, 4 - 5 / 10000) \<and>
      \<bar>fst (pts ! 1) - 2\<bar> \<le> 5 / 10000 \<and> \<bar>snd (pts ! 1) - 4\<bar> \<le> 5 / 10000)"
proof -
  have n: "(0::int) \<le> 3" by simp
  have j: "\<forall>i. 1 \<le> i \<and> i \<le> (3::int) \<longrightarrow>
           \<bar>fst (demo_jitter i)\<bar> \<le> 5 / 10000 \<and> \<bar>snd (demo_jitter i)\<bar> \<le> 5 / 10000"
    by (simp add: demo_jitter_def)
  have v: "generate_route (0, 0) (4, 8) 3 demo_jitter =
     Inr [(1, 2), (2 + 5 / 10000, 4 - 5 / 10000), (3, 6)]"
    by (simp add: generate_route_def demo_jitter_def Let_def upto.simps)
  from generate_route_interpolates [OF n j, of "(0, 0)" "(4, 8)"]
  obtain pts where g: "generate_route (0, 0) (4, 8) 3 demo_jitter = Inr pts"
    and len: "length pts = nat 3"
    and pt: "\<forall>i. 1 \<le> i \<and> i \<le> (3::int) \<longrightarrow>
        pts ! nat (i - 1) =
          (fst (0::real, 0::real) + (fst (4::real, 8::real) - fst (0::real, 0::real)) * (of_int i / of_int (3 + 1)) + fst (demo_jitter i),
           snd (0::real, 0::real) + (snd (4::real, 8::real) - snd (0::real, 0::real)) * (of_int i / of_int (3 + 1)) + snd (demo_jitter i)) \<and>
        \<bar>fst (pts ! nat (i - 1)) -
           (fst (0::real, 0::real) + (fst (4::real, 8::real) - fst (0::real, 0::real)) * (of_int i / of_int (3 + 1)))\<bar> \<le> 5 / 10000 \<and>
        \<bar>snd (pts ! nat (i - 1)) -
           (snd (0::real, 0::real) + (snd (4::real, 8::real) - snd (0::real, 0::real)) * (of_int i / of_int (3 + 1)))\<bar> \<le> 5 / 10000 \<and>
        (0::real) < of_int i / of_int (3 + 1) \<and> (of_int i / of_int (3 + 1) :: real) < 1"
    by blast
  from pt [rule_format, of 2]
  have "pts ! 1 = (2 + 5 / 10000, 4 - 5 / 10000) \<and>
      \<bar>fst (pts ! 1) - 2\<bar> \<le> 5 / 10000 \<and> \<bar>snd (pts ! 1) - 4\<bar> \<le> 5 / 10000"
    by (simp add: demo_jitter_def)
  with v g len show ?thesis by simp
qed

end
